theory Spec2Isabelle
  imports Complex_Main "HOL-Library.Sublist" "HOL-Library.Multiset"
begin

section \<open>The calendar example: month grids and holiday highlights\<close>

text \<open>
  The development embeds \<^verbatim>\<open>examples/models/file/calendars.py\<close>. The function
  \<^verbatim>\<open>make_calendar(year, month, firstweekday)\<close> builds two column data sources: the grid of
  day cells (columns \<^verbatim>\<open>days\<close>, \<^verbatim>\<open>weeks\<close>, \<^verbatim>\<open>month_days\<close>, \<^verbatim>\<open>day_backgrounds\<close>) and the holiday
  highlights (columns \<^verbatim>\<open>holidays_days\<close>, \<^verbatim>\<open>holidays_weeks\<close>, \<^verbatim>\<open>month_holidays\<close>). Everything
  after these two sources is glyph and axis set-up of the plotting library and is left out.

  Python integers are \<^typ>\<open>int\<close>; \<^verbatim>\<open>%\<close> and \<^verbatim>\<open>//\<close> with a positive divisor are \<open>mod\<close> and
  \<open>div\<close> on \<^typ>\<open>int\<close> (both floor). Python strings are \<^typ>\<open>string\<close>, a character standing
  for a code point below 256. Exceptions are values of type \<open>error\<close>.
\<close>

subsection \<open>Python built-ins used by the script\<close>

datatype error = ValueError | IllegalMonthError int

text \<open>\<^verbatim>\<open>xs.index(x)\<close>: the first position of \<open>x\<close>, \<^verbatim>\<open>ValueError\<close> when it is absent.\<close>

fun list_index :: "'a list \<Rightarrow> 'a \<Rightarrow> error + int" where
  "list_index [] x = Inl ValueError"
| "list_index (y # ys) x =
     (if y = x then Inr 0
      else (case list_index ys x of Inl e \<Rightarrow> Inl e | Inr i \<Rightarrow> Inr (i + 1)))"

text \<open>\<^verbatim>\<open>str(n)\<close> on an integer: decimal digits, a minus sign for a negative number.\<close>

definition digit_char :: "nat \<Rightarrow> char" where
  "digit_char d = char_of (48 + d)"

function str_nat :: "nat \<Rightarrow> string" where
  "str_nat n = (if n < 10 then [digit_char n] else str_nat (n div 10) @ [digit_char (n mod 10)])"
  by pat_completeness auto
termination
  by (relation "measure id") auto

definition str_int :: "int \<Rightarrow> string" where
  "str_int i = (if i < 0 then CHR ''-'' # str_nat (nat (- i)) else str_nat (nat i))"

text \<open>\<^verbatim>\<open>sub in s\<close> on strings: \<open>sub\<close> occurs in \<open>s\<close> as a contiguous block.\<close>

definition str_contains :: "string \<Rightarrow> string \<Rightarrow> bool" where
  "str_contains s sub \<longleftrightarrow> sublist sub s"

text \<open>
  \<^verbatim>\<open>s.replace(old, new)\<close>: every occurrence of \<open>old\<close>, found from left to right without
  overlap, becomes \<open>new\<close>. With an empty \<open>old\<close> Python puts \<open>new\<close> before every character
  and at the end.
\<close>

function replace_from :: "string \<Rightarrow> string \<Rightarrow> string \<Rightarrow> string" where
  "replace_from old new [] = []"
| "replace_from old new (c # cs) =
     (if old \<noteq> [] \<and> prefix old (c # cs)
      then new @ replace_from old new (drop (length old) (c # cs))
      else c # replace_from old new cs)"
  by pat_completeness auto
termination
  by (relation "measure (\<lambda>(old, new, s). length s)") auto

definition str_replace :: "string \<Rightarrow> string \<Rightarrow> string \<Rightarrow> string" where
  "str_replace s old new =
     (if old = [] then new @ concat (map (\<lambda>c. c # new) s) else replace_from old new s)"

text \<open>
  \<^verbatim>\<open>s.strip()\<close>: leading and trailing whitespace removed. Below code point 256 Python's
  whitespace is 9 to 13, 28 to 32, 133 and 160.
\<close>

definition is_space :: "char \<Rightarrow> bool" where
  "is_space c \<longleftrightarrow> (of_char c :: nat) \<in> {9, 10, 11, 12, 13, 28, 29, 30, 31, 32, 133, 160}"

definition str_strip :: "string \<Rightarrow> string" where
  "str_strip s = rev (dropWhile is_space (rev (dropWhile is_space s)))"

subsection \<open>The standard library: \<^verbatim>\<open>datetime.date\<close> and \<^verbatim>\<open>calendar\<close>\<close>

text \<open>
  The script calls \<^verbatim>\<open>date.weekday()\<close>, \<^verbatim>\<open>date.replace(day=1)\<close>, \<^verbatim>\<open>calendar.day_abbr\<close> and
  \<^verbatim>\<open>Calendar.itermonthdays\<close>. They are transcribed from CPython's \<^verbatim>\<open>_pydatetime.py\<close> and
  \<^verbatim>\<open>calendar.py\<close>; \<^verbatim>\<open>day_abbr\<close> is taken in the C locale.
\<close>

record date =
  year :: int
  month :: int
  day :: int

definition is_leap :: "int \<Rightarrow> bool" where
  "is_leap y \<longleftrightarrow> y mod 4 = 0 \<and> (y mod 100 \<noteq> 0 \<or> y mod 400 = 0)"

definition DAYS_IN_MONTH :: "int list" where
  "DAYS_IN_MONTH = [-1, 31, 28, 31, 30, 31, 30, 31, 31, 30, 31, 30, 31]"

definition DAYS_BEFORE_MONTH :: "int list" where
  "DAYS_BEFORE_MONTH = [-1, 0, 31, 59, 90, 120, 151, 181, 212, 243, 273, 304, 334]"

definition days_before_year :: "int \<Rightarrow> int" where
  "days_before_year y = (let y = y - 1 in y * 365 + y div 4 - y div 100 + y div 400)"

definition days_in_month :: "int \<Rightarrow> int \<Rightarrow> int" where
  "days_in_month y m = (if m = 2 \<and> is_leap y then 29 else DAYS_IN_MONTH ! nat m)"

definition days_before_month :: "int \<Rightarrow> int \<Rightarrow> int" where
  "days_before_month y m = DAYS_BEFORE_MONTH ! nat m + (if m > 2 \<and> is_leap y then 1 else 0)"

definition ymd2ord :: "int \<Rightarrow> int \<Rightarrow> int \<Rightarrow> int" where
  "ymd2ord y m d = days_before_year y + days_before_month y m + d"

text \<open>
  The constructor of \<^verbatim>\<open>date\<close> accepts exactly the fields below (\<^verbatim>\<open>_check_date_fields\<close>), so
  every date object of a run satisfies \<open>valid_date\<close>.
\<close>

definition valid_date :: "date \<Rightarrow> bool" where
  "valid_date d \<longleftrightarrow>
     1 \<le> year d \<and> year d \<le> 9999 \<and> 1 \<le> month d \<and> month d \<le> 12 \<and>
     1 \<le> day d \<and> day d \<le> days_in_month (year d) (month d)"

definition toordinal :: "date \<Rightarrow> int" where
  "toordinal d = ymd2ord (year d) (month d) (day d)"

definition date_weekday :: "date \<Rightarrow> int" where
  "date_weekday d = (toordinal d + 6) mod 7"

definition replace_day :: "date \<Rightarrow> int \<Rightarrow> date" where
  "replace_day d n = \<lparr>year = year d, month = month d, day = n\<rparr>"

definition day_abbrs :: "string list" where
  "day_abbrs = [''Mon'', ''Tue'', ''Wed'', ''Thu'', ''Fri'', ''Sat'', ''Sun'']"

definition isleap :: "int \<Rightarrow> bool" where
  "isleap y \<longleftrightarrow> y mod 4 = 0 \<and> (y mod 100 \<noteq> 0 \<or> y mod 400 = 0)"

definition mdays :: "int list" where
  "mdays = [0, 31, 28, 31, 30, 31, 30, 31, 31, 30, 31, 30, 31]"

definition calendar_weekday :: "int \<Rightarrow> int \<Rightarrow> int \<Rightarrow> int" where
  "calendar_weekday y m d =
     (let y = (if \<not> (1 \<le> y \<and> y \<le> 9999) then 2000 + y mod 400 else y)
      in date_weekday \<lparr>year = y, month = m, day = d\<rparr>)"

definition monthrange :: "int \<Rightarrow> int \<Rightarrow> error + (int \<times> int)" where
  "monthrange y m =
     (if \<not> (1 \<le> m \<and> m \<le> 12) then Inl (IllegalMonthError m)
      else (let day1 = calendar_weekday y m 1;
                ndays = mdays ! nat m + (if m = 2 \<and> isleap y then 1 else 0)
            in Inr (day1, ndays)))"

text \<open>
  \<^verbatim>\<open>Calendar(firstweekday).itermonthdays(year, month)\<close>, the generator read out as a list;
  the property \<^verbatim>\<open>self.firstweekday\<close> returns the stored value modulo 7.
\<close>

definition itermonthdays :: "int \<Rightarrow> int \<Rightarrow> int \<Rightarrow> error + int list" where
  "itermonthdays firstweekday y m =
     (case monthrange y m of
        Inl e \<Rightarrow> Inl e
      | Inr (day1, ndays) \<Rightarrow>
          (let days_before = (day1 - firstweekday mod 7) mod 7;
               days_after = (firstweekday mod 7 - day1 - ndays) mod 7
           in Inr (replicate (nat days_before) 0 @ [1..ndays] @ replicate (nat days_after) 0)))"

text \<open>
  The values of the locals \<^verbatim>\<open>days_before\<close> and \<^verbatim>\<open>days_after\<close> of \<^verbatim>\<open>itermonthdays\<close> for a
  month in range, named so that statements can refer to them.
\<close>

definition days_before :: "int \<Rightarrow> int \<Rightarrow> int \<Rightarrow> int" where
  "days_before firstweekday y m = (calendar_weekday y m 1 - firstweekday mod 7) mod 7"

definition days_after :: "int \<Rightarrow> int \<Rightarrow> int \<Rightarrow> int" where
  "days_after firstweekday y m =
     (firstweekday mod 7 - calendar_weekday y m 1 - days_in_month y m) mod 7"

subsection \<open>\<^verbatim>\<open>make_calendar\<close>\<close>

text \<open>
  The local names of \<^verbatim>\<open>make_calendar\<close> become functions of the variables they read;
  \<open>firstweekday\<close> below is the index the first line of the function computes. The two
  \<^verbatim>\<open>ColumnDataSource\<close> dictionaries are records with one field per key; the key
  \<^verbatim>\<open>month_days\<close> is the field \<open>month_days_col\<close>, since the local list already has the name,
  and the result record holds \<^verbatim>\<open>source\<close> and \<^verbatim>\<open>holidays_source\<close> (field \<open>highlights\<close>).
\<close>

definition workday :: string where
  "workday = ''linen''"

definition weekend :: string where
  "weekend = ''lightsteelblue''"

definition month_days :: "int \<Rightarrow> int \<Rightarrow> int \<Rightarrow> error + string option list" where
  "month_days firstweekday y m =
     (case itermonthdays firstweekday y m of
        Inl e \<Rightarrow> Inl e
      | Inr ds \<Rightarrow> Inr (map (\<lambda>d. if d = 0 then None else Some (str_int d)) ds))"

definition weekday :: "int \<Rightarrow> date \<Rightarrow> int" where
  "weekday firstweekday d = (date_weekday d - firstweekday) mod 7"

definition pick_weekdays :: "int \<Rightarrow> 'a list \<Rightarrow> 'a list" where
  "pick_weekdays firstweekday days =
     map (\<lambda>i. days ! nat (i mod 7)) [firstweekday..firstweekday + 7 - 1]"

definition day_names :: "int \<Rightarrow> string list" where
  "day_names firstweekday = pick_weekdays firstweekday day_abbrs"

definition week_days :: "int \<Rightarrow> string list" where
  "week_days firstweekday =
     pick_weekdays firstweekday (replicate 5 workday @ replicate 2 weekend)"

text \<open>
  The list \<^verbatim>\<open>us_holidays\<close> of (date, summary) pairs comes from the sample data of the
  plotting library; it is an argument here.
\<close>

definition holidays :: "int \<Rightarrow> int \<Rightarrow> (date \<times> string) list \<Rightarrow> (date \<times> string) list" where
  "holidays y m us_holidays =
     concat (map (\<lambda>(d, summary).
        if year d = y \<and> month d = m \<and> str_contains summary ''(US-OPM)''
        then [(d, str_strip (str_replace summary ''(US-OPM)'' ''''))] else []) us_holidays)"

record grid_source =
  days :: "string list"
  weeks :: "string list"
  month_days_col :: "string option list"
  day_backgrounds :: "string list"

record holidays_source =
  holidays_days :: "string list"
  holidays_weeks :: "string list"
  month_holidays :: "string list"

record calendar =
  source :: grid_source
  highlights :: holidays_source

definition make_source :: "int \<Rightarrow> string option list \<Rightarrow> grid_source" where
  "make_source firstweekday mds =
     (let month_weeks = length mds div 7 in
      \<lparr>days = concat (replicate month_weeks (day_names firstweekday)),
       weeks = concat (map (\<lambda>week. replicate 7 (str_int (int week))) [0..<month_weeks]),
       month_days_col = mds,
       day_backgrounds = concat (replicate month_weeks (week_days firstweekday))\<rparr>)"

definition make_holidays_source :: "int \<Rightarrow> (date \<times> string) list \<Rightarrow> holidays_source" where
  "make_holidays_source firstweekday hs =
     \<lparr>holidays_days = map (\<lambda>(d, _). day_names firstweekday ! nat (weekday firstweekday d)) hs,
      holidays_weeks =
        map (\<lambda>(d, _). str_int ((weekday firstweekday (replace_day d 1) + day d) div 7)) hs,
      month_holidays = map (\<lambda>(_, summary). summary) hs\<rparr>"

definition make_calendar ::
  "int \<Rightarrow> int \<Rightarrow> string \<Rightarrow> (date \<times> string) list \<Rightarrow> error + calendar" where
  "make_calendar y m firstweekday us_holidays =
     (case list_index day_abbrs firstweekday of
        Inl e \<Rightarrow> Inl e
      | Inr fw \<Rightarrow>
          (case month_days fw y m of
             Inl e \<Rightarrow> Inl e
           | Inr mds \<Rightarrow>
               Inr \<lparr>source = make_source fw mds,
                    highlights = make_holidays_source fw (holidays y m us_holidays)\<rparr>))"

section \<open>Auxiliary facts\<close>

subsection \<open>Decimal strings and list positions\<close>

declare str_nat.simps [simp del]

lemma digit_char_val: "d < 10 \<Longrightarrow> (of_char (digit_char d) :: nat) = 48 + d"
  by (simp add: digit_char_def)

lemma str_nat_value: "foldl (\<lambda>a c. 10 * a + (of_char c - 48)) (0::nat) (str_nat n) = n"
proof (induction n rule: str_nat.induct)
  case (1 n)
  show ?case
  proof (cases "n < 10")
    case True
    then show ?thesis by (subst str_nat.simps) (simp add: digit_char_val)
  next
    case False
    with 1 show ?thesis by (subst str_nat.simps) (simp add: digit_char_val)
  qed
qed

lemma str_nat_inj: "str_nat a = str_nat b \<Longrightarrow> a = b"
  by (metis str_nat_value)

lemma str_nat_no_minus: "CHR ''-'' \<notin> set (str_nat n)"
proof (induction n rule: str_nat.induct)
  case (1 n)
  have d: "digit_char k \<noteq> CHR ''-''" if "k < 10" for k
    using digit_char_val [OF that] by auto
  show ?case
  proof (cases "n < 10")
    case True
    then show ?thesis using d [of n] by (subst str_nat.simps) auto
  next
    case False
    with 1 show ?thesis using d [of "n mod 10"] by (subst str_nat.simps) auto
  qed
qed

lemma str_int_inj: "str_int a = str_int b \<Longrightarrow> a = b"
proof -
  assume eq: "str_int a = str_int b"
  have neg: "CHR ''-'' # str_nat p \<noteq> str_nat q" for p q
    using str_nat_no_minus [of q] by (metis list.set_intros(1))
  show ?thesis
  proof (cases "a < 0"; cases "b < 0")
    assume "a < 0" "b < 0"
    with eq have "nat (- a) = nat (- b)" by (simp add: str_int_def str_nat_inj)
    with \<open>a < 0\<close> \<open>b < 0\<close> show ?thesis by simp
  next
    assume "a < 0" "\<not> b < 0"
    with eq neg show ?thesis by (simp add: str_int_def)
  next
    assume "\<not> a < 0" "b < 0"
    with eq neg [of "nat (- b)" "nat a"] show ?thesis by (simp add: str_int_def)
  next
    assume "\<not> a < 0" "\<not> b < 0"
    with eq have "nat a = nat b" by (simp add: str_int_def str_nat_inj)
    with \<open>\<not> a < 0\<close> \<open>\<not> b < 0\<close> show ?thesis by simp
  qed
qed

lemma list_index_Inr:
  "list_index xs x = Inr i \<Longrightarrow> 0 \<le> i \<and> i < int (length xs) \<and> xs ! nat i = x"
proof (induction xs arbitrary: i)
  case Nil
  then show ?case by simp
next
  case (Cons y ys)
  show ?case
  proof (cases "y = x")
    case True
    with Cons.prems show ?thesis by simp
  next
    case False
    with Cons.prems obtain j where j: "list_index ys x = Inr j" "i = j + 1"
      by (auto split: sum.splits)
    from Cons.IH [OF j(1)] j(2) show ?thesis by (simp add: nat_add_distrib)
  qed
qed

lemma list_index_Inl: "x \<notin> set xs \<Longrightarrow> list_index xs x = Inl ValueError"
  by (induction xs) auto

lemma list_index_mem: "x \<in> set xs \<Longrightarrow> \<exists>i. list_index xs x = Inr i"
  by (induction xs) (auto split: sum.splits)

lemma list_index_nth:
  "distinct xs \<Longrightarrow> k < length xs \<Longrightarrow> list_index xs (xs ! k) = Inr (int k)"
proof (induction xs arbitrary: k)
  case Nil
  then show ?case by simp
next
  case (Cons y ys)
  show ?case
  proof (cases k)
    case 0
    then show ?thesis by simp
  next
    case (Suc j)
    with Cons.prems have "ys ! j \<noteq> y" "j < length ys" "distinct ys" by auto
    with Cons.IH [of j] Suc show ?thesis by simp
  qed
qed

subsection \<open>The shape of the month grid\<close>

lemma length_day_abbrs: "length day_abbrs = 7"
  by (simp add: day_abbrs_def)

lemma firstweekday_range:
  assumes "list_index day_abbrs nm = Inr fw"
  shows "0 \<le> fw" and "fw < 7" and "day_abbrs ! nat fw = nm"
  using list_index_Inr [OF assms] by (simp_all add: length_day_abbrs)

lemma length_pick_weekdays: "length (pick_weekdays fw xs) = 7"
  by (simp add: pick_weekdays_def)

lemma nth_pick_weekdays:
  "j < 7 \<Longrightarrow> pick_weekdays fw xs ! j = xs ! nat ((fw + int j) mod 7)"
  by (simp add: pick_weekdays_def)

lemma month_cases:
  fixes m :: int
  assumes "1 \<le> m" "m \<le> 12"
  shows "m = 1 \<or> m = 2 \<or> m = 3 \<or> m = 4 \<or> m = 5 \<or> m = 6 \<or> m = 7 \<or> m = 8 \<or> m = 9 \<or>
         m = 10 \<or> m = 11 \<or> m = 12"
  using assms by arith

lemma mdays_days_in_month:
  assumes "1 \<le> m" "m \<le> 12"
  shows "mdays ! nat m + (if m = 2 \<and> isleap y then 1 else 0) = days_in_month y m"
  using month_cases [OF assms]
  by (elim disjE) (simp_all add: mdays_def days_in_month_def DAYS_IN_MONTH_def isleap_def is_leap_def)

lemma days_in_month_bounds:
  assumes "1 \<le> m" "m \<le> 12"
  shows "28 \<le> days_in_month y m" and "days_in_month y m \<le> 31"
  using month_cases [OF assms]
  by (elim disjE; simp add: days_in_month_def DAYS_IN_MONTH_def)+

lemma monthrange_valid:
  assumes "1 \<le> m" "m \<le> 12"
  shows "monthrange y m = Inr (calendar_weekday y m 1, days_in_month y m)"
  using assms mdays_days_in_month [OF assms, of y] by (simp add: monthrange_def)

lemma itermonthdays_valid:
  assumes "1 \<le> m" "m \<le> 12"
  shows "itermonthdays fw y m =
           Inr (replicate (nat (days_before fw y m)) 0 @ [1..days_in_month y m] @
                replicate (nat (days_after fw y m)) 0)"
  by (simp add: itermonthdays_def monthrange_valid [OF assms] days_before_def days_after_def)

lemma month_days_valid:
  assumes "1 \<le> m" "m \<le> 12"
  shows "month_days fw y m =
           Inr (replicate (nat (days_before fw y m)) None @
                map (\<lambda>d. Some (str_int d)) [1..days_in_month y m] @
                replicate (nat (days_after fw y m)) None)"
proof -
  have "map (\<lambda>d. if d = 0 then None else Some (str_int d)) [1..days_in_month y m] =
        map (\<lambda>d. Some (str_int d)) [1..days_in_month y m]"
    by (rule map_cong) auto
  then show ?thesis
    by (simp add: month_days_def itermonthdays_valid [OF assms])
qed

lemma days_before_range: "0 \<le> days_before fw y m" "days_before fw y m < 7"
  by (simp_all add: days_before_def)

lemma days_after_range: "0 \<le> days_after fw y m" "days_after fw y m < 7"
  by (simp_all add: days_after_def)

lemma mod7_cancel:
  fixes d f n :: int
  shows "((d - f) mod 7 + n + (f - d - n) mod 7) mod 7 = 0"
proof -
  have "((d - f) mod 7 + n + (f - d - n) mod 7) mod 7 =
        ((d - f) mod 7 + (n + (f - d - n) mod 7)) mod 7"
    by (simp only: add.assoc)
  also have "\<dots> = ((d - f) + (n + (f - d - n) mod 7)) mod 7"
    by (rule mod_add_left_eq)
  also have "\<dots> = (((d - f) + n) + (f - d - n) mod 7) mod 7"
    by (simp only: add.assoc)
  also have "\<dots> = (((d - f) + n) + (f - d - n)) mod 7"
    by (rule mod_add_right_eq)
  also have "\<dots> = 0" by simp
  finally show ?thesis .
qed

lemma grid_total_mod7:
  "(days_before fw y m + days_in_month y m + days_after fw y m) mod 7 = 0"
  unfolding days_before_def days_after_def by (rule mod7_cancel)

lemma length_month_days:
  assumes "1 \<le> m" "m \<le> 12" and "month_days fw y m = Inr mds"
  shows "int (length mds) = days_before fw y m + days_in_month y m + days_after fw y m"
  using assms(3) days_before_range [of fw y m] days_after_range [of fw y m]
    days_in_month_bounds [OF assms(1,2), of y]
  by (auto simp add: month_days_valid [OF assms(1,2)])

lemma round_up_7:
  fixes t a :: int
  shows "t mod 7 = 0 \<Longrightarrow> 0 \<le> a \<Longrightarrow> a < 7 \<Longrightarrow> t = 7 * ((t - a + 6) div 7)"
  by presburger

lemma length_month_days_weeks:
  assumes "1 \<le> m" "m \<le> 12" and "month_days fw y m = Inr mds"
  shows "int (length mds) = 7 * ((days_before fw y m + days_in_month y m + 6) div 7)"
    and "length mds mod 7 = 0"
proof -
  let ?b = "days_before fw y m" and ?n = "days_in_month y m" and ?a = "days_after fw y m"
  have len: "int (length mds) = ?b + ?n + ?a"
    by (rule length_month_days [OF assms])
  have m0: "(?b + ?n + ?a) mod 7 = 0" by (rule grid_total_mod7)
  have r: "0 \<le> ?a" "?a < 7" by (rule days_after_range)+
  from round_up_7 [OF m0 r] show "int (length mds) = 7 * ((?b + ?n + 6) div 7)"
    unfolding len by simp
  from len m0 have "int (length mds) mod 7 = 0" by simp
  then have "int (length mds mod 7) = int 0" by (simp add: zmod_int)
  then show "length mds mod 7 = 0" by (simp only: of_nat_eq_iff)
qed

subsection \<open>Reading the columns by position\<close>

lemma length_concat_replicate: "length (concat (replicate k xs)) = k * length xs"
  by (induction k) simp_all

lemma nth_concat_replicate:
  "i < k * length xs \<Longrightarrow> concat (replicate k xs) ! i = xs ! (i mod length xs)"
proof (induction k arbitrary: i)
  case 0
  then show ?case by simp
next
  case (Suc k)
  show ?case
  proof (cases "i < length xs")
    case True
    then show ?thesis by (simp add: nth_append)
  next
    case False
    then have ge: "length xs \<le> i" by simp
    with Suc.prems have "i - length xs < k * length xs" by simp
    from Suc.IH [OF this] False ge show ?thesis
      by (simp add: nth_append le_mod_geq)
  qed
qed

lemma length_week_column:
  "length (concat (map (\<lambda>w. replicate 7 (f w)) [0..<k])) = 7 * k"
  by (induction k) simp_all

lemma nth_week_column:
  "i < 7 * k \<Longrightarrow> concat (map (\<lambda>w. replicate 7 (f w)) [0..<k]) ! i = f (i div 7)"
proof (induction k)
  case 0
  then show ?case by simp
next
  case (Suc k)
  show ?case
  proof (cases "i < 7 * k")
    case True
    with Suc.IH show ?thesis by (simp add: nth_append length_week_column)
  next
    case False
    with Suc.prems have "i div 7 = k" "i - 7 * k < 7" by simp_all
    with False show ?thesis by (simp add: nth_append length_week_column)
  qed
qed

lemma length_day_names: "length (day_names fw) = 7"
  by (simp add: day_names_def length_pick_weekdays)

lemma length_week_days: "length (week_days fw) = 7"
  by (simp add: week_days_def length_pick_weekdays)

lemma source_lengths:
  "length (days (make_source fw mds)) = 7 * (length mds div 7)"
  "length (weeks (make_source fw mds)) = 7 * (length mds div 7)"
  "length (day_backgrounds (make_source fw mds)) = 7 * (length mds div 7)"
  "month_days_col (make_source fw mds) = mds"
  by (simp_all add: make_source_def Let_def length_concat_replicate length_week_column
      length_day_names length_week_days)

lemma source_nth:
  assumes "i < 7 * (length mds div 7)"
  shows "days (make_source fw mds) ! i = day_names fw ! (i mod 7)"
    and "weeks (make_source fw mds) ! i = str_int (int (i div 7))"
    and "day_backgrounds (make_source fw mds) ! i = week_days fw ! (i mod 7)"
proof -
  from assms have a: "i < (length mds div 7) * length (day_names fw)"
    and b: "i < (length mds div 7) * length (week_days fw)"
    by (simp_all add: length_day_names length_week_days)
  show "days (make_source fw mds) ! i = day_names fw ! (i mod 7)"
    using nth_concat_replicate [OF a] by (simp add: make_source_def Let_def length_day_names)
  show "weeks (make_source fw mds) ! i = str_int (int (i div 7))"
    using nth_week_column [OF assms] by (simp add: make_source_def Let_def)
  show "day_backgrounds (make_source fw mds) ! i = week_days fw ! (i mod 7)"
    using nth_concat_replicate [OF b] by (simp add: make_source_def Let_def length_week_days)
qed

lemma ceiling_div_7: "\<lceil>real_of_int a / 7\<rceil> = (a + 6) div 7"
proof -
  have "\<lceil>real_of_int a / real_of_int 7\<rceil> = - (- a div 7)"
    by (rule ceiling_divide_eq_div)
  also have "\<dots> = (a + 6) div 7" by presburger
  finally show ?thesis by simp
qed

lemma leading_blanks:
  assumes "1 \<le> n"
  shows "takeWhile (\<lambda>c. c = None) (replicate b None @ map (\<lambda>d. Some (f d)) [1..n] @ zs) =
         replicate b None"
proof -
  from assms have "[1..n] = 1 # [1 + 1..n]" by (rule upto_rec1)
  then show ?thesis by (induction b) simp_all
qed

lemma make_calendar_valid:
  assumes "1 \<le> m" "m \<le> 12" "list_index day_abbrs nm = Inr fw"
  shows "make_calendar y m nm us =
           Inr \<lparr>source = make_source fw
                   (replicate (nat (days_before fw y m)) None @
                    map (\<lambda>d. Some (str_int d)) [1..days_in_month y m] @
                    replicate (nat (days_after fw y m)) None),
                highlights = make_holidays_source fw (holidays y m us)\<rparr>"
  by (simp add: make_calendar_def assms(3) month_days_valid [OF assms(1,2)])

lemma make_calendar_Inr:
  assumes "make_calendar y m nm us = Inr r"
  obtains fw where "list_index day_abbrs nm = Inr fw" "1 \<le> m" "m \<le> 12"
proof -
  from assms obtain fw mds where fw: "list_index day_abbrs nm = Inr fw"
    and "month_days fw y m = Inr mds"
    by (auto simp add: make_calendar_def split: sum.splits)
  then have "1 \<le> m \<and> m \<le> 12"
    by (auto simp add: month_days_def itermonthdays_def monthrange_def split: if_splits)
  with fw that show ?thesis by simp
qed

lemma int_eq_7: "int k = 7 * z \<Longrightarrow> k = 7 * nat z"
  by arith

lemma inj_str_int: "inj str_int"
  by (rule injI) (rule str_int_inj)

lemma non_blank_cells:
  "map the (filter (\<lambda>c. c \<noteq> None)
      (replicate b None @ map (\<lambda>d. Some (f d)) xs @ replicate a None)) = map f xs"
  by (simp add: filter_map o_def)

lemma set_cells:
  "set (replicate b None @ map (\<lambda>d. Some (f d)) xs @ replicate a None) \<subseteq>
     insert None ((\<lambda>d. Some (f d)) ` set xs)"
  by auto

subsection \<open>Weekdays, rotation and the cell of a date\<close>

lemma date_weekday_range: "0 \<le> date_weekday d" "date_weekday d < 7"
  by (simp_all add: date_weekday_def)

lemma weekday_range: "0 \<le> weekday fw d" "weekday fw d < 7"
  by (simp_all add: weekday_def)

lemma nth_day_names:
  "j < 7 \<Longrightarrow> day_names fw ! j = day_abbrs ! nat ((fw + int j) mod 7)"
  by (simp add: day_names_def nth_pick_weekdays)

lemma rotate_back:
  fixes fw w :: int
  assumes "0 \<le> w" "w < 7"
  shows "(fw + int (nat ((w - fw) mod 7))) mod 7 = w"
proof -
  have "(fw + int (nat ((w - fw) mod 7))) mod 7 = (fw + (w - fw) mod 7) mod 7"
    by simp
  also have "\<dots> = (fw + (w - fw)) mod 7"
    by (rule mod_add_right_eq)
  also have "\<dots> = w" using assms by simp
  finally show ?thesis .
qed

lemma day_names_weekday:
  "day_names fw ! nat (weekday fw d) = day_abbrs ! nat (date_weekday d)"
proof -
  have j: "nat (weekday fw d) < 7"
    using weekday_range [of fw d] by simp
  show ?thesis
    unfolding nth_day_names [OF j]
    by (simp only: weekday_def rotate_back [OF date_weekday_range])
qed

lemma distinct_day_abbrs: "distinct day_abbrs"
  by (simp add: day_abbrs_def)

lemma mod7_shift_inj:
  fixes fw :: int
  assumes "(fw + int i) mod 7 = (fw + int j) mod 7" "i < 7" "j < 7"
  shows "i = j"
proof -
  from assms(1) have "7 dvd (fw + int i) - (fw + int j)"
    by (simp only: mod_eq_dvd_iff)
  then have "7 dvd int i - int j" by simp
  then obtain k where "int i - int j = 7 * k" ..
  with assms(2,3) show ?thesis by arith
qed

lemma distinct_day_names: "distinct (day_names fw)"
proof -
  have "day_names fw ! i \<noteq> day_names fw ! j" if "i < 7" "j < 7" "i \<noteq> j" for i j
  proof
    assume "day_names fw ! i = day_names fw ! j"
    then have "day_abbrs ! nat ((fw + int i) mod 7) = day_abbrs ! nat ((fw + int j) mod 7)"
      by (simp only: nth_day_names [OF that(1)] nth_day_names [OF that(2)])
    moreover have "nat ((fw + int i) mod 7) < length day_abbrs"
      "nat ((fw + int j) mod 7) < length day_abbrs"
      by (simp_all add: length_day_abbrs)
    ultimately have "nat ((fw + int i) mod 7) = nat ((fw + int j) mod 7)"
      using distinct_day_abbrs by (simp add: nth_eq_iff_index_eq)
    then have "(fw + int i) mod 7 = (fw + int j) mod 7" by simp
    from mod7_shift_inj [OF this that(1,2)] that(3) show False by simp
  qed
  then show ?thesis
    by (simp add: distinct_conv_nth length_day_names)
qed

lemma position_in_day_names:
  "list_index (day_names fw) (day_abbrs ! nat (date_weekday d)) = Inr (weekday fw d)"
proof -
  have j: "nat (weekday fw d) < length (day_names fw)"
    using weekday_range [of fw d] by (simp add: length_day_names)
  from list_index_nth [OF distinct_day_names j] weekday_range(1) [of fw d]
  show ?thesis by (simp add: day_names_weekday)
qed

lemma date_weekday_day:
  "date_weekday \<lparr>year = y, month = m, day = d\<rparr> =
     (date_weekday \<lparr>year = y, month = m, day = 1\<rparr> + (d - 1)) mod 7"
proof -
  let ?A = "days_before_year y + days_before_month y m"
  have "((?A + 1 + 6) mod 7 + (d - 1)) mod 7 = ((?A + 1 + 6) + (d - 1)) mod 7"
    by (rule mod_add_left_eq)
  also have "(?A + 1 + 6) + (d - 1) = ?A + d + 6" by simp
  finally show ?thesis
    by (simp add: date_weekday_def toordinal_def ymd2ord_def)
qed

lemma calendar_weekday_date:
  "1 \<le> y \<Longrightarrow> y \<le> 9999 \<Longrightarrow>
     calendar_weekday y m d = date_weekday \<lparr>year = y, month = m, day = d\<rparr>"
  by (simp add: calendar_weekday_def)

lemma days_before_weekday:
  assumes "1 \<le> y" "y \<le> 9999" "0 \<le> fw" "fw < 7"
  shows "days_before fw y m = weekday fw \<lparr>year = y, month = m, day = 1\<rparr>"
  using assms by (simp add: days_before_def weekday_def calendar_weekday_date)

lemma column_of_day:
  "(weekday fw \<lparr>year = y, month = m, day = 1\<rparr> + (d - 1)) mod 7 =
     weekday fw \<lparr>year = y, month = m, day = d\<rparr>"
proof -
  let ?w1 = "date_weekday \<lparr>year = y, month = m, day = 1\<rparr>"
  have "((?w1 - fw) mod 7 + (d - 1)) mod 7 = ((?w1 - fw) + (d - 1)) mod 7"
    by (rule mod_add_left_eq)
  also have "(?w1 - fw) + (d - 1) = (?w1 + (d - 1)) - fw" by simp
  also have "((?w1 + (d - 1)) - fw) mod 7 = ((?w1 + (d - 1)) mod 7 - fw) mod 7"
    by (rule mod_diff_left_eq [symmetric])
  also have "(?w1 + (d - 1)) mod 7 = date_weekday \<lparr>year = y, month = m, day = d\<rparr>"
    by (rule date_weekday_day [symmetric])
  finally show ?thesis by (simp only: weekday_def)
qed

lemma cell_at_day:
  assumes "1 \<le> d" "d \<le> n"
  shows "(replicate b None @ map (\<lambda>d. Some (f d)) [1..n] @ replicate a None) ! (b + nat (d - 1)) =
         Some (f d)"
proof -
  from assms have "nat (d - 1) < length (map (\<lambda>d. Some (f d)) [1..n])" by simp
  then have "(map (\<lambda>d. Some (f d)) [1..n] @ replicate a None) ! nat (d - 1) =
             map (\<lambda>d. Some (f d)) [1..n] ! nat (d - 1)"
    by (simp only: nth_append if_True)
  also have "\<dots> = Some (f d)" using assms by simp
  finally show ?thesis by (simp add: nth_append)
qed

lemma cell_position:
  assumes "inj f"
    and "i < length (replicate b None @ map (\<lambda>d. Some (f d)) [1..n] @ replicate a None)"
    and "(replicate b None @ map (\<lambda>d. Some (f d)) [1..n] @ replicate a None) ! i = Some (f d)"
  shows "i = b + nat (d - 1) \<and> 1 \<le> d \<and> d \<le> n"
proof -
  let ?mid = "map (\<lambda>d. Some (f d)) [1..n]"
  have bi: "b \<le> i"
  proof (rule ccontr)
    assume "\<not> b \<le> i"
    with assms(3) show False by (simp add: nth_append)
  qed
  have mid: "i - b < length ?mid"
  proof (rule ccontr)
    assume "\<not> i - b < length ?mid"
    with assms(2,3) bi show False by (simp add: nth_append)
  qed
  with assms(3) bi have "?mid ! (i - b) = Some (f d)"
    by (simp add: nth_append)
  with mid have "f (1 + int (i - b)) = f d" by simp
  with assms(1) have "d = 1 + int (i - b)" by (simp add: inj_eq)
  moreover from mid have "i - b < nat n" by simp
  ultimately show ?thesis using bi by arith
qed

lemma make_calendar_config:
  assumes "1 \<le> m" "m \<le> 12" "nm \<in> set day_abbrs"
  obtains fw r where "list_index day_abbrs nm = Inr fw" "0 \<le> fw" "fw < 7"
    and "make_calendar y m nm us = Inr r"
    and "source r = make_source fw
           (replicate (nat (days_before fw y m)) None @
            map (\<lambda>d. Some (str_int d)) [1..days_in_month y m] @
            replicate (nat (days_after fw y m)) None)"
    and "highlights r = make_holidays_source fw (holidays y m us)"
proof -
  from list_index_mem [OF assms(3)] obtain fw where fw: "list_index day_abbrs nm = Inr fw" ..
  note rg = firstweekday_range(1,2) [OF fw]
  show ?thesis
    by (rule that [OF fw rg make_calendar_valid [OF assms(1,2) fw]]) simp_all
qed

lemma highlight_columns:
  "holidays_days (make_holidays_source fw hs) =
     map (\<lambda>(d, _). day_names fw ! nat (weekday fw d)) hs"
  "holidays_weeks (make_holidays_source fw hs) =
     map (\<lambda>(d, _). str_int ((weekday fw (replace_day d 1) + day d) div 7)) hs"
  "month_holidays (make_holidays_source fw hs) = map snd hs"
  by (simp_all add: make_holidays_source_def case_prod_beta)

lemma grid_cell_of_date:
  assumes m: "1 \<le> m" "m \<le> 12" and fw: "0 \<le> fw" "fw < 7"
    and d: "valid_date d" "year d = y" "month d = m"
    and i: "i < length mds" "mds ! i = Some (str_int (day d))"
    and mds: "mds = replicate (nat (days_before fw y m)) None @
                    map (\<lambda>d. Some (str_int d)) [1..days_in_month y m] @
                    replicate (nat (days_after fw y m)) None"
  shows "int i = weekday fw (replace_day d 1) + (day d - 1)"
    and "i < 7 * (length mds div 7)"
    and "int (i mod 7) = weekday fw d"
proof -
  from d have y: "1 \<le> y" "y \<le> 9999" by (simp_all add: valid_date_def)
  have b: "days_before fw y m = weekday fw (replace_day d 1)"
    using days_before_weekday [OF y fw, of m] d(2,3) by (simp add: replace_day_def)
  from i cell_position [OF inj_str_int, of i "nat (days_before fw y m)" "days_in_month y m"
      "nat (days_after fw y m)" "day d"]
  have pos: "i = nat (days_before fw y m) + nat (day d - 1)" and d1: "1 \<le> day d"
    unfolding mds by simp_all
  with days_before_range(1) [of fw y m] have "int i = days_before fw y m + (day d - 1)"
    by simp
  with b show eq: "int i = weekday fw (replace_day d 1) + (day d - 1)" by simp
  have md: "month_days fw y m = Inr mds"
    unfolding mds by (rule month_days_valid [OF m])
  from length_month_days_weeks(2) [OF m md] have "7 * (length mds div 7) = length mds"
    by (simp add: mod_eq_0_iff_dvd)
  with i(1) show "i < 7 * (length mds div 7)" by simp
  have "int (i mod 7) = int i mod 7" by (simp add: zmod_int)
  also have "\<dots> = (weekday fw \<lparr>year = y, month = m, day = 1\<rparr> + (day d - 1)) mod 7"
    using eq d(2,3) by (simp add: replace_day_def)
  also have "\<dots> = weekday fw \<lparr>year = y, month = m, day = day d\<rparr>"
    by (rule column_of_day)
  also have "\<lparr>year = y, month = m, day = day d\<rparr> = d"
    using d(2,3) by simp
  finally show "int (i mod 7) = weekday fw d" .
qed

lemma grid_cell_label:
  assumes m: "1 \<le> m" "m \<le> 12" and fw: "0 \<le> fw" "fw < 7"
    and src: "source r = make_source fw
           (replicate (nat (days_before fw y m)) None @
            map (\<lambda>d. Some (str_int d)) [1..days_in_month y m] @
            replicate (nat (days_after fw y m)) None)"
    and d: "valid_date d" "year d = y" "month d = m"
    and i: "i < length (month_days_col (source r))"
      "month_days_col (source r) ! i = Some (str_int (day d))"
  shows "days (source r) ! i = day_names fw ! nat (weekday fw d)"
    and "weeks (source r) ! i = str_int ((weekday fw (replace_day d 1) + day d - 1) div 7)"
proof -
  let ?mds = "replicate (nat (days_before fw y m)) None @
            map (\<lambda>d. Some (str_int d)) [1..days_in_month y m] @
            replicate (nat (days_after fw y m)) None"
  from i have i': "i < length ?mds" "?mds ! i = Some (str_int (day d))"
    by (simp_all only: src source_lengths)
  note g = grid_cell_of_date [OF m fw d i' refl]
  have "days (source r) ! i = day_names fw ! (i mod 7)"
    unfolding src by (rule source_nth(1) [OF g(2)])
  also have "i mod 7 = nat (int (i mod 7))" by simp
  finally show "days (source r) ! i = day_names fw ! nat (weekday fw d)"
    by (simp only: g(3))
  have "weeks (source r) ! i = str_int (int (i div 7))"
    unfolding src by (rule source_nth(2) [OF g(2)])
  also have "int (i div 7) = int i div 7" by (simp add: zdiv_int)
  also have "int i = weekday fw (replace_day d 1) + day d - 1"
    using g(1) by simp
  finally show "weeks (source r) ! i =
      str_int ((weekday fw (replace_day d 1) + day d - 1) div 7)" .
qed

lemma nth_week_days:
  "j < 7 \<Longrightarrow>
     week_days fw ! j = (replicate 5 workday @ replicate 2 weekend) ! nat ((fw + int j) mod 7)"
  by (simp add: week_days_def nth_pick_weekdays)

lemma small_index_cases:
  fixes k :: nat
  assumes "k < 7"
  shows "k = 0 \<or> k = 1 \<or> k = 2 \<or> k = 3 \<or> k = 4 \<or> k = 5 \<or> k = 6"
  using assms by arith

lemma colour_weekend:
  assumes "k < 7"
  shows "(replicate 5 workday @ replicate 2 weekend) ! k = weekend \<longleftrightarrow> 5 \<le> k"
    and "(replicate 5 workday @ replicate 2 weekend) ! k = workday \<longleftrightarrow> k < 5"
  using small_index_cases [OF assms]
  by (elim disjE; simp add: nth_append workday_def weekend_def)+

lemma name_weekend:
  assumes "k < 7"
  shows "day_abbrs ! k \<in> set (drop 5 day_abbrs) \<longleftrightarrow> 5 \<le> k"
  using small_index_cases [OF assms]
  by (elim disjE; simp add: day_abbrs_def)

subsection \<open>The holiday filter and the string operations\<close>

lemma holidays_filter:
  "holidays y m us =
     map (\<lambda>(d, s). (d, str_strip (str_replace s ''(US-OPM)'' '''')))
       (filter (\<lambda>(d, s). year d = y \<and> month d = m \<and> str_contains s ''(US-OPM)'') us)"
proof (induction us)
  case Nil
  show ?case by (simp add: holidays_def)
next
  case (Cons x xs)
  obtain d s where x: "x = (d, s)" by (cases x)
  from Cons show ?case by (simp add: holidays_def x)
qed

lemma holidays_dates:
  "map fst (holidays y m us) =
     map fst (filter (\<lambda>(d, s). year d = y \<and> month d = m \<and> str_contains s ''(US-OPM)'') us)"
  by (simp add: holidays_filter case_prod_beta)

lemma str_contains_iff: "str_contains s sub \<longleftrightarrow> (\<exists>pre post. s = pre @ sub @ post)"
  by (simp add: str_contains_def sublist_def)

lemma str_strip_ends:
  assumes "str_strip s \<noteq> []"
  shows "\<not> is_space (hd (str_strip s))" and "\<not> is_space (last (str_strip s))"
proof -
  let ?t = "dropWhile is_space s"
  let ?u = "dropWhile is_space (rev ?t)"
  from assms have u: "?u \<noteq> []" by (simp add: str_strip_def)
  then have "\<not> is_space (hd ?u)" by (rule hd_dropWhile)
  with u show "\<not> is_space (last (str_strip s))"
    by (simp add: str_strip_def last_rev)
  have t: "?t \<noteq> []"
  proof
    assume a: "?t = []"
    have "?u = dropWhile is_space (rev [])" by (simp only: a)
    with u show False by simp
  qed
  then have h: "\<not> is_space (hd ?t)" by (rule hd_dropWhile)
  from t obtain c cs where tc: "?t = c # cs" by (cases ?t) auto
  with h have c: "\<not> is_space c" by simp
  then have "dropWhile is_space (rev cs @ [c]) = dropWhile is_space (rev cs) @ [c]"
    by (simp add: dropWhile_append)
  then have "rev ?u = c # rev (dropWhile is_space (rev cs))"
    by (simp add: tc)
  with c show "\<not> is_space (hd (str_strip s))" by (simp add: str_strip_def)
qed

lemma replace_from_absent:
  "\<not> sublist old s \<Longrightarrow> replace_from old new s = s"
proof (induction old new s rule: replace_from.induct)
  case (1 old new)
  then show ?case by simp
next
  case (2 old new c cs)
  have np: "\<not> prefix old (c # cs)"
  proof
    assume "prefix old (c # cs)"
    then have "sublist old (c # cs)" by (rule prefix_imp_sublist)
    with 2(3) show False ..
  qed
  have "\<not> sublist old cs"
  proof
    assume "sublist old cs"
    then have "sublist old (c # cs)" by (simp add: sublist_Cons_right)
    with 2(3) show False ..
  qed
  with 2(2) np show ?case by simp
qed

lemma str_replace_absent:
  "\<not> str_contains s old \<Longrightarrow> str_replace s old new = s"
proof -
  assume a: "\<not> str_contains s old"
  then have "old \<noteq> []" by (auto simp add: str_contains_def)
  with a show ?thesis by (simp add: str_replace_def str_contains_def replace_from_absent)
qed

section \<open>Claims\<close>

text \<open>
  C8. A configuration whose month lies outside 1 to 12, or whose first weekday is not one
  of the seven names of \<open>day_abbrs\<close>, makes \<^verbatim>\<open>make_calendar\<close> raise instead of returning
  a grid: \<^verbatim>\<open>ValueError\<close> from \<^verbatim>\<open>list.index\<close> for an unknown name, otherwise
  \<^verbatim>\<open>IllegalMonthError\<close> from \<^verbatim>\<open>itermonthdays\<close>.
\<close>

theorem make_calendar_invalid_config:
  assumes "\<not> (1 \<le> m \<and> m \<le> 12) \<or> firstweekday \<notin> set day_abbrs"
  shows "make_calendar y m firstweekday us_holidays =
           Inl (if firstweekday \<notin> set day_abbrs then ValueError else IllegalMonthError m)"
proof (cases "firstweekday \<in> set day_abbrs")
  case False
  then have "list_index day_abbrs firstweekday = Inl ValueError"
    by (rule list_index_Inl)
  with False show ?thesis
    by (simp add: make_calendar_def)
next
  case True
  from list_index_mem [OF True] obtain fw where fw: "list_index day_abbrs firstweekday = Inr fw" ..
  from True assms have "\<not> (1 \<le> m \<and> m \<le> 12)" by blast
  then have "month_days fw y m = Inl (IllegalMonthError m)"
    by (simp add: month_days_def itermonthdays_def monthrange_def)
  then have "make_calendar y m firstweekday us_holidays = Inl (IllegalMonthError m)"
    by (simp add: make_calendar_def fw)
  with True show ?thesis
    by simp
qed

theorem make_calendar_invalid_config_witness:
  "\<not> (1 \<le> (13::int) \<and> (13::int) \<le> 12) \<and>
   make_calendar 2014 13 ''Mon'' [] = Inl (IllegalMonthError 13)"
proof -
  have m: "''Mon'' \<in> set day_abbrs" by (simp add: day_abbrs_def)
  have h: "\<not> (1 \<le> (13::int) \<and> (13::int) \<le> 12) \<or> ''Mon'' \<notin> set day_abbrs" by simp
  from make_calendar_invalid_config [OF h] m show ?thesis by simp
qed

text \<open>
  C3. For a month in 1 to 12 (any year) and any of the seven weekday names, the build
  returns, and the column \<^verbatim>\<open>month_days\<close> has exactly \<open>7 * weekCount\<close> cells, where
  \<open>weekCount\<close> is the ceiling of (leading blank cells + days in the month) / 7; so its
  length is a multiple of 7. The other three grid columns have the same length.
\<close>

theorem month_grid_length:
  assumes "1 \<le> m" and "m \<le> 12" and "firstweekday \<in> set day_abbrs"
  shows "\<exists>r. make_calendar y m firstweekday us_holidays = Inr r \<and>
           (let cells = month_days_col (source r);
                blanks = length (takeWhile (\<lambda>c. c = None) cells);
                weekCount = nat \<lceil>(real blanks + real_of_int (days_in_month y m)) / 7\<rceil>
            in length cells = 7 * weekCount \<and> length cells mod 7 = 0 \<and>
               length (days (source r)) = 7 * weekCount \<and>
               length (weeks (source r)) = 7 * weekCount \<and>
               length (day_backgrounds (source r)) = 7 * weekCount)"
proof -
  from list_index_mem [OF assms(3)] obtain fw
    where fw: "list_index day_abbrs firstweekday = Inr fw" ..
  let ?b = "days_before fw y m" and ?n = "days_in_month y m" and ?a = "days_after fw y m"
  let ?post = "map (\<lambda>d. Some (str_int d)) [1..?n] @ replicate (nat ?a) None"
  let ?mds = "replicate (nat ?b) None @ ?post"
  let ?r = "\<lparr>source = make_source fw ?mds,
             highlights = make_holidays_source fw (holidays y m us_holidays)\<rparr>"
  have r: "make_calendar y m firstweekday us_holidays = Inr ?r"
    using make_calendar_valid [OF assms(1,2) fw] by simp
  have md: "month_days fw y m = Inr ?mds"
    by (rule month_days_valid [OF assms(1,2)])
  have n1: "1 \<le> ?n"
    using days_in_month_bounds(1) [OF assms(1,2), of y] by simp
  have b0: "0 \<le> ?b" by (rule days_before_range)
  have blanks: "length (takeWhile (\<lambda>c. c = None) ?mds) = nat ?b"
    using leading_blanks [OF n1, of "nat ?b" str_int "replicate (nat ?a) None"] by simp
  have "\<lceil>(real (nat ?b) + real_of_int ?n) / 7\<rceil> = \<lceil>real_of_int (?b + ?n) / 7\<rceil>"
    using b0 by simp
  also have "\<dots> = (?b + ?n + 6) div 7" by (rule ceiling_div_7)
  finally have wc: "\<lceil>(real (nat ?b) + real_of_int ?n) / 7\<rceil> = (?b + ?n + 6) div 7" .
  have len: "int (length ?mds) = 7 * ((?b + ?n + 6) div 7)"
    by (rule length_month_days_weeks(1) [OF assms(1,2) md])
  have m7: "length ?mds mod 7 = 0"
    by (rule length_month_days_weeks(2) [OF assms(1,2) md])
  have len': "length ?mds = 7 * nat ((?b + ?n + 6) div 7)"
    by (rule int_eq_7 [OF len])
  then have dv: "length ?mds div 7 = nat ((?b + ?n + 6) div 7)" by simp
  have "let cells = month_days_col (source ?r);
            blanks = length (takeWhile (\<lambda>c. c = None) cells);
            weekCount = nat \<lceil>(real blanks + real_of_int ?n) / 7\<rceil>
        in length cells = 7 * weekCount \<and> length cells mod 7 = 0 \<and>
           length (days (source ?r)) = 7 * weekCount \<and>
           length (weeks (source ?r)) = 7 * weekCount \<and>
           length (day_backgrounds (source ?r)) = 7 * weekCount"
    unfolding Let_def calendar.simps source_lengths blanks wc dv
    using len' m7 by simp
  with r show ?thesis by (intro exI conjI)
qed

theorem month_grid_length_witness:
  "(1::int) \<le> 3 \<and> (3::int) \<le> 12 \<and> ''Mon'' \<in> set day_abbrs \<and>
   (\<exists>r. make_calendar 2014 3 ''Mon'' [] = Inr r \<and> length (month_days_col (source r)) = 42 \<and>
        length (month_days_col (source r)) mod 7 = 0)"
proof -
  have h: "(1::int) \<le> 3" "(3::int) \<le> 12" "''Mon'' \<in> set day_abbrs"
    by (simp_all add: day_abbrs_def)
  have ev: "map_sum id (\<lambda>r. length (month_days_col (source r))) (make_calendar 2014 3 ''Mon'' []) =
            Inr 42"
    by code_simp
  from month_grid_length [OF h, of 2014 "[]"] obtain r
    where r: "make_calendar 2014 3 ''Mon'' [] = Inr r"
      and m: "length (month_days_col (source r)) mod 7 = 0"
    unfolding Let_def by (elim exE conjE)
  from ev r have "length (month_days_col (source r)) = 42" by simp
  with h r m show ?thesis by simp
qed

text \<open>
  C4. For a month in 1 to 12 and any of the seven weekday names, the non-blank cells of
  \<^verbatim>\<open>month_days\<close>, read in order, are the decimal strings of 1, 2, ..., \<open>days_in_month\<close>: each
  day number of the month occurs exactly once and no other number occurs. In particular
  a February of a non-leap year has no cell 29.
\<close>

theorem month_grid_day_numbers:
  assumes "1 \<le> m" and "m \<le> 12" and "firstweekday \<in> set day_abbrs"
  shows "\<exists>r. make_calendar y m firstweekday us_holidays = Inr r \<and>
           (let vals = map the (filter (\<lambda>c. c \<noteq> None) (month_days_col (source r)))
            in vals = map str_int [1..days_in_month y m] \<and> distinct vals \<and>
               (\<forall>k. count (mset vals) (str_int k) =
                      (if 1 \<le> k \<and> k \<le> days_in_month y m then 1 else 0)) \<and>
               (m = 2 \<and> \<not> is_leap y \<longrightarrow>
                  Some (str_int 29) \<notin> set (month_days_col (source r))))"
proof -
  from list_index_mem [OF assms(3)] obtain fw
    where fw: "list_index day_abbrs firstweekday = Inr fw" ..
  let ?n = "days_in_month y m"
  let ?mds = "replicate (nat (days_before fw y m)) None @
              map (\<lambda>d. Some (str_int d)) [1..?n] @ replicate (nat (days_after fw y m)) None"
  let ?r = "\<lparr>source = make_source fw ?mds,
             highlights = make_holidays_source fw (holidays y m us_holidays)\<rparr>"
  let ?vals = "map str_int [1..?n]"
  have r: "make_calendar y m firstweekday us_holidays = Inr ?r"
    using make_calendar_valid [OF assms(1,2) fw] by simp
  have col: "month_days_col (source ?r) = ?mds"
    by (simp add: source_lengths)
  have vals: "map the (filter (\<lambda>c. c \<noteq> None) ?mds) = ?vals"
    by (rule non_blank_cells)
  have dist: "distinct ?vals"
    by (simp add: distinct_map inj_on_subset [OF inj_str_int])
  have cnt: "count (mset ?vals) (str_int k) = (if 1 \<le> k \<and> k \<le> ?n then 1 else 0)" for k
  proof -
    from dist have "count (mset ?vals) (str_int k) = (if str_int k \<in> set ?vals then 1 else 0)"
      by (simp add: distinct_count_atmost_1)
    moreover have "str_int k \<in> set ?vals \<longleftrightarrow> 1 \<le> k \<and> k \<le> ?n"
      by (simp add: inj_image_mem_iff [OF inj_str_int])
    ultimately show ?thesis by simp
  qed
  have feb: "Some (str_int 29) \<notin> set ?mds" if "m = 2" "\<not> is_leap y"
  proof
    assume "Some (str_int 29) \<in> set ?mds"
    with set_cells [of _ str_int "[1..?n]"] have "Some (str_int 29) \<in> (\<lambda>d. Some (str_int d)) ` {1..?n}"
      by auto
    then have "(29::int) \<in> {1..?n}"
      by (auto dest: str_int_inj)
    with that show False
      by (simp add: days_in_month_def DAYS_IN_MONTH_def)
  qed
  have "let vals = map the (filter (\<lambda>c. c \<noteq> None) (month_days_col (source ?r)))
        in vals = ?vals \<and> distinct vals \<and>
           (\<forall>k. count (mset vals) (str_int k) = (if 1 \<le> k \<and> k \<le> ?n then 1 else 0)) \<and>
           (m = 2 \<and> \<not> is_leap y \<longrightarrow> Some (str_int 29) \<notin> set (month_days_col (source ?r)))"
    unfolding Let_def col vals using dist cnt feb by simp
  with r show ?thesis by (intro exI conjI)
qed

theorem month_grid_day_numbers_witness:
  "(1::int) \<le> 2 \<and> (2::int) \<le> 12 \<and> ''Sun'' \<in> set day_abbrs \<and>
   (\<exists>r. make_calendar 2014 2 ''Sun'' [] = Inr r \<and>
        map the (filter (\<lambda>c. c \<noteq> None) (month_days_col (source r))) = map str_int [1..28] \<and>
        Some (str_int 29) \<notin> set (month_days_col (source r)))"
proof -
  have h: "(1::int) \<le> 2" "(2::int) \<le> 12" "''Sun'' \<in> set day_abbrs"
    by (simp_all add: day_abbrs_def)
  have n: "days_in_month 2014 2 = 28" "\<not> is_leap 2014"
    by (simp_all add: days_in_month_def is_leap_def DAYS_IN_MONTH_def)
  from month_grid_day_numbers [OF h, of 2014 "[]"] obtain r
    where r: "make_calendar 2014 2 ''Sun'' [] = Inr r"
      and v: "map the (filter (\<lambda>c. c \<noteq> None) (month_days_col (source r))) =
              map str_int [1..days_in_month 2014 2]"
      and f: "(2::int) = 2 \<and> \<not> is_leap 2014 \<longrightarrow> Some (str_int 29) \<notin> set (month_days_col (source r))"
    unfolding Let_def by (elim exE conjE)
  from v n f h r show ?thesis by simp
qed

text \<open>
  C1. The highlight of a date in the month should carry the weekday label and the week
  index of the day cell that shows that date. The labels agree, but the week index of
  the highlight is \<open>(weekday (first of month) + day) div 7\<close>, while the day cell sits at
  position \<open>weekday (first of month) + day - 1\<close> of the grid: for a date in the last column
  the highlight lands one row below its cell. For January 2014 with the week starting on
  Tuesday, the cell of the 20th (a Monday) is in row 2 and its highlight in row 3.
\<close>

theorem highlight_week_off_by_one:
  "\<not> isl (make_calendar 2014 1 ''Tue''
            [(\<lparr>year = 2014, month = 1, day = 20\<rparr>,
              ''Birthday of Martin Luther King, Jr. (US-OPM)'')]) \<and>
   month_days_col (source (projr (make_calendar 2014 1 ''Tue''
      [(\<lparr>year = 2014, month = 1, day = 20\<rparr>,
        ''Birthday of Martin Luther King, Jr. (US-OPM)'')]))) ! 20 = Some ''20'' \<and>
   days (source (projr (make_calendar 2014 1 ''Tue''
      [(\<lparr>year = 2014, month = 1, day = 20\<rparr>,
        ''Birthday of Martin Luther King, Jr. (US-OPM)'')]))) ! 20 = ''Mon'' \<and>
   weeks (source (projr (make_calendar 2014 1 ''Tue''
      [(\<lparr>year = 2014, month = 1, day = 20\<rparr>,
        ''Birthday of Martin Luther King, Jr. (US-OPM)'')]))) ! 20 = ''2'' \<and>
   holidays_days (highlights (projr (make_calendar 2014 1 ''Tue''
      [(\<lparr>year = 2014, month = 1, day = 20\<rparr>,
        ''Birthday of Martin Luther King, Jr. (US-OPM)'')]))) = [''Mon''] \<and>
   holidays_weeks (highlights (projr (make_calendar 2014 1 ''Tue''
      [(\<lparr>year = 2014, month = 1, day = 20\<rparr>,
        ''Birthday of Martin Luther King, Jr. (US-OPM)'')]))) = [''3'']"
  by code_simp

text \<open>
  C5. With \<open>fw\<close> the index of the first weekday in \<open>day_abbrs\<close>, the weekday label given
  to a date is the name at index \<open>(date.weekday() - fw) mod 7\<close> of the rotated name list
  \<open>day_names fw\<close>: this holds for the highlight of every retained date, and for the day
  cell of the grid that shows the date's day number.
\<close>

theorem weekday_label_position:
  assumes "1 \<le> m" and "m \<le> 12" and "firstweekday \<in> set day_abbrs"
  shows "\<exists>r fw. make_calendar y m firstweekday us_holidays = Inr r \<and>
           list_index day_abbrs firstweekday = Inr fw \<and>
           holidays_days (highlights r) =
             map (\<lambda>(d, _). day_names fw ! nat ((date_weekday d - fw) mod 7))
               (holidays y m us_holidays) \<and>
           (\<forall>d i. valid_date d \<and> year d = y \<and> month d = m \<and>
                  i < length (month_days_col (source r)) \<and>
                  month_days_col (source r) ! i = Some (str_int (day d)) \<longrightarrow>
                  days (source r) ! i = day_names fw ! nat ((date_weekday d - fw) mod 7))"
proof -
  from make_calendar_config [OF assms, of y us_holidays] obtain fw r
    where fw: "list_index day_abbrs firstweekday = Inr fw" and rg: "0 \<le> fw" "fw < 7"
      and r: "make_calendar y m firstweekday us_holidays = Inr r"
      and src: "source r = make_source fw
           (replicate (nat (days_before fw y m)) None @
            map (\<lambda>d. Some (str_int d)) [1..days_in_month y m] @
            replicate (nat (days_after fw y m)) None)"
      and hl: "highlights r = make_holidays_source fw (holidays y m us_holidays)"
    by blast
  let ?mds = "replicate (nat (days_before fw y m)) None @
            map (\<lambda>d. Some (str_int d)) [1..days_in_month y m] @
            replicate (nat (days_after fw y m)) None"
  have hd: "holidays_days (highlights r) =
             map (\<lambda>(d, _). day_names fw ! nat ((date_weekday d - fw) mod 7))
               (holidays y m us_holidays)"
    by (simp only: hl highlight_columns weekday_def)
  have cell: "days (source r) ! i = day_names fw ! nat ((date_weekday d - fw) mod 7)"
    if "valid_date d" "year d = y" "month d = m" "i < length (month_days_col (source r))"
      "month_days_col (source r) ! i = Some (str_int (day d))" for d i
  proof -
    from that(4,5) have i: "i < length ?mds" "?mds ! i = Some (str_int (day d))"
      by (simp_all only: src source_lengths)
    note g = grid_cell_of_date [OF assms(1,2) rg that(1,2,3) i refl]
    have "days (source r) ! i = day_names fw ! (i mod 7)"
      unfolding src by (rule source_nth(1) [OF g(2)])
    also have "i mod 7 = nat (int (i mod 7))" by simp
    also have "int (i mod 7) = (date_weekday d - fw) mod 7"
      using g(3) by (simp only: weekday_def)
    finally show ?thesis .
  qed
  from r fw hd cell show ?thesis by blast
qed

theorem weekday_label_position_witness:
  "(1::int) \<le> 5 \<and> (5::int) \<le> 12 \<and> ''Sun'' \<in> set day_abbrs \<and>
   valid_date \<lparr>year = 2014, month = 5, day = 26\<rparr> \<and>
   (\<exists>r. make_calendar 2014 5 ''Sun''
          [(\<lparr>year = 2014, month = 5, day = 26\<rparr>, ''Memorial Day (US-OPM)'')] = Inr r \<and>
        month_days_col (source r) ! 29 = Some ''26'' \<and>
        days (source r) ! 29 = ''Mon'' \<and>
        holidays_days (highlights r) = [''Mon''])"
proof -
  let ?D = "\<lparr>year = 2014, month = 5, day = 26\<rparr>"
  let ?us = "[(?D, ''Memorial Day (US-OPM)'')]"
  have h: "(1::int) \<le> 5" "(5::int) \<le> 12" "''Sun'' \<in> set day_abbrs"
    by (simp_all add: day_abbrs_def)
  have vd: "valid_date ?D" by code_simp
  have ix: "list_index day_abbrs ''Sun'' = Inr 6" by code_simp
  have ev: "map_sum id (\<lambda>r. (month_days_col (source r) ! 29, length (month_days_col (source r))))
              (make_calendar 2014 5 ''Sun'' ?us) = Inr (Some ''26'', 35)"
    by code_simp
  have s26: "str_int 26 = ''26''" by code_simp
  have hol: "holidays 2014 5 ?us = [(?D, ''Memorial Day'')]" by code_simp
  have lbl: "day_names 6 ! nat ((date_weekday ?D - 6) mod 7) = ''Mon''" by code_simp
  from weekday_label_position [OF h, of 2014 ?us] obtain r fw
    where r: "make_calendar 2014 5 ''Sun'' ?us = Inr r"
      and fw: "list_index day_abbrs ''Sun'' = Inr fw"
      and hd: "holidays_days (highlights r) =
             map (\<lambda>(d, _). day_names fw ! nat ((date_weekday d - fw) mod 7)) (holidays 2014 5 ?us)"
      and cell: "\<forall>d i. valid_date d \<and> year d = 2014 \<and> month d = 5 \<and>
                  i < length (month_days_col (source r)) \<and>
                  month_days_col (source r) ! i = Some (str_int (day d)) \<longrightarrow>
                  days (source r) ! i = day_names fw ! nat ((date_weekday d - fw) mod 7)"
    by (elim exE conjE)
  from fw ix have fw6: "fw = 6" by simp
  from ev r have c: "month_days_col (source r) ! 29 = Some ''26''"
    "length (month_days_col (source r)) = 35" by simp_all
  from cell [rule_format, of ?D 29] vd c s26 have "days (source r) ! 29 = ''Mon''"
    by (simp add: fw6 lbl)
  moreover from hd have "holidays_days (highlights r) = [''Mon'']"
    by (simp add: hol fw6 lbl)
  ultimately show ?thesis using h vd r c by simp
qed

text \<open>
  C9. The weekday label of a date does not depend on the first weekday: the rotation of
  the name list and of the index cancel, so the label of a highlight, and of the day cell
  of a date, is the abbreviation \<open>day_abbrs ! date.weekday()\<close> of the date's own weekday,
  and two builds that differ only in the first weekday give the same highlight labels.
\<close>

theorem weekday_label_independent:
  assumes "1 \<le> m" and "m \<le> 12"
    and "firstweekday \<in> set day_abbrs" and "firstweekday' \<in> set day_abbrs"
  shows "\<exists>r r'. make_calendar y m firstweekday us_holidays = Inr r \<and>
           make_calendar y m firstweekday' us_holidays = Inr r' \<and>
           holidays_days (highlights r) =
             map (\<lambda>(d, _). day_abbrs ! nat (date_weekday d)) (holidays y m us_holidays) \<and>
           holidays_days (highlights r') = holidays_days (highlights r) \<and>
           (\<forall>d i. valid_date d \<and> year d = y \<and> month d = m \<and>
                  i < length (month_days_col (source r)) \<and>
                  month_days_col (source r) ! i = Some (str_int (day d)) \<longrightarrow>
                  days (source r) ! i = day_abbrs ! nat (date_weekday d))"
proof -
  have one: "\<exists>r. make_calendar y m nm us_holidays = Inr r \<and>
               holidays_days (highlights r) =
                 map (\<lambda>(d, _). day_abbrs ! nat (date_weekday d)) (holidays y m us_holidays) \<and>
               (\<forall>d i. valid_date d \<and> year d = y \<and> month d = m \<and>
                  i < length (month_days_col (source r)) \<and>
                  month_days_col (source r) ! i = Some (str_int (day d)) \<longrightarrow>
                  days (source r) ! i = day_abbrs ! nat (date_weekday d))"
    if "nm \<in> set day_abbrs" for nm
  proof -
    from make_calendar_config [OF assms(1,2) that, of y us_holidays] obtain fw r
      where rg: "0 \<le> fw" "fw < 7"
        and r: "make_calendar y m nm us_holidays = Inr r"
        and src: "source r = make_source fw
           (replicate (nat (days_before fw y m)) None @
            map (\<lambda>d. Some (str_int d)) [1..days_in_month y m] @
            replicate (nat (days_after fw y m)) None)"
        and hl: "highlights r = make_holidays_source fw (holidays y m us_holidays)"
      by blast
    have "holidays_days (highlights r) =
            map (\<lambda>(d, _). day_abbrs ! nat (date_weekday d)) (holidays y m us_holidays)"
      by (simp only: hl highlight_columns day_names_weekday)
    moreover have "days (source r) ! i = day_abbrs ! nat (date_weekday d)"
      if "valid_date d" "year d = y" "month d = m" "i < length (month_days_col (source r))"
        "month_days_col (source r) ! i = Some (str_int (day d))" for d i
      using grid_cell_label(1) [OF assms(1,2) rg src that] by (simp only: day_names_weekday)
    ultimately show ?thesis using r by blast
  qed
  from one [OF assms(3)] one [OF assms(4)] show ?thesis by (elim exE conjE) simp
qed

theorem weekday_label_independent_witness:
  "(1::int) \<le> 5 \<and> (5::int) \<le> 12 \<and> ''Sun'' \<in> set day_abbrs \<and> ''Wed'' \<in> set day_abbrs \<and>
   valid_date \<lparr>year = 2014, month = 5, day = 26\<rparr> \<and>
   (\<exists>r r'. make_calendar 2014 5 ''Sun''
             [(\<lparr>year = 2014, month = 5, day = 26\<rparr>, ''Memorial Day (US-OPM)'')] = Inr r \<and>
           make_calendar 2014 5 ''Wed''
             [(\<lparr>year = 2014, month = 5, day = 26\<rparr>, ''Memorial Day (US-OPM)'')] = Inr r' \<and>
           holidays_days (highlights r) = [''Mon''] \<and>
           holidays_days (highlights r') = [''Mon''] \<and>
           month_days_col (source r) ! 29 = Some ''26'' \<and>
           days (source r) ! 29 = ''Mon'')"
proof -
  let ?D = "\<lparr>year = 2014, month = 5, day = 26\<rparr>"
  let ?us = "[(?D, ''Memorial Day (US-OPM)'')]"
  have h: "(1::int) \<le> 5" "(5::int) \<le> 12" "''Sun'' \<in> set day_abbrs" "''Wed'' \<in> set day_abbrs"
    by (simp_all add: day_abbrs_def)
  have vd: "valid_date ?D" by code_simp
  have ev: "map_sum id (\<lambda>r. (month_days_col (source r) ! 29, length (month_days_col (source r))))
              (make_calendar 2014 5 ''Sun'' ?us) = Inr (Some ''26'', 35)"
    by code_simp
  have s26: "str_int 26 = ''26''" by code_simp
  have hol: "holidays 2014 5 ?us = [(?D, ''Memorial Day'')]" by code_simp
  have lbl: "day_abbrs ! nat (date_weekday ?D) = ''Mon''" by code_simp
  from weekday_label_independent [OF h, of 2014 ?us] obtain r r'
    where r: "make_calendar 2014 5 ''Sun'' ?us = Inr r"
      and r': "make_calendar 2014 5 ''Wed'' ?us = Inr r'"
      and hd: "holidays_days (highlights r) =
             map (\<lambda>(d, _). day_abbrs ! nat (date_weekday d)) (holidays 2014 5 ?us)"
      and same: "holidays_days (highlights r') = holidays_days (highlights r)"
      and cell: "\<forall>d i. valid_date d \<and> year d = 2014 \<and> month d = 5 \<and>
                  i < length (month_days_col (source r)) \<and>
                  month_days_col (source r) ! i = Some (str_int (day d)) \<longrightarrow>
                  days (source r) ! i = day_abbrs ! nat (date_weekday d)"
    by (elim exE conjE)
  from ev r have c: "month_days_col (source r) ! 29 = Some ''26''"
    "length (month_days_col (source r)) = 35" by simp_all
  from cell [rule_format, of ?D 29] vd c s26 have "days (source r) ! 29 = ''Mon''"
    by (simp add: lbl)
  moreover from hd have "holidays_days (highlights r) = [''Mon'']"
    by (simp add: hol lbl)
  ultimately show ?thesis using h vd r r' c same by simp
qed

text \<open>
  C2. For every retained date the entry of \<^verbatim>\<open>holidays_weeks\<close> is the decimal string of
  \<open>(p + day) div 7\<close>, where \<open>p\<close> is the position, in the rotated name list \<open>day_names fw\<close>,
  of the weekday name of the first day of the date's month.
\<close>

theorem highlight_week_index:
  assumes "1 \<le> m" and "m \<le> 12" and "firstweekday \<in> set day_abbrs"
  shows "\<exists>r fw. make_calendar y m firstweekday us_holidays = Inr r \<and>
           list_index day_abbrs firstweekday = Inr fw \<and>
           length (holidays_weeks (highlights r)) = length (holidays y m us_holidays) \<and>
           (\<forall>k < length (holidays y m us_holidays).
              \<exists>p. list_index (day_names fw)
                     (day_abbrs ! nat (date_weekday
                        (replace_day (fst (holidays y m us_holidays ! k)) 1))) = Inr p \<and>
                  holidays_weeks (highlights r) ! k =
                    str_int ((p + day (fst (holidays y m us_holidays ! k))) div 7))"
proof -
  from make_calendar_config [OF assms, of y us_holidays] obtain fw r
    where fw: "list_index day_abbrs firstweekday = Inr fw"
      and r: "make_calendar y m firstweekday us_holidays = Inr r"
      and hl: "highlights r = make_holidays_source fw (holidays y m us_holidays)"
    by blast
  let ?hs = "holidays y m us_holidays"
  have len: "length (holidays_weeks (highlights r)) = length ?hs"
    by (simp add: hl highlight_columns)
  have wk: "\<exists>p. list_index (day_names fw)
                 (day_abbrs ! nat (date_weekday (replace_day (fst (?hs ! k)) 1))) = Inr p \<and>
              holidays_weeks (highlights r) ! k = str_int ((p + day (fst (?hs ! k))) div 7)"
    if "k < length ?hs" for k
  proof -
    let ?p = "weekday fw (replace_day (fst (?hs ! k)) 1)"
    have "list_index (day_names fw)
            (day_abbrs ! nat (date_weekday (replace_day (fst (?hs ! k)) 1))) = Inr ?p"
      by (rule position_in_day_names)
    moreover from that have "holidays_weeks (highlights r) ! k =
        str_int ((?p + day (fst (?hs ! k))) div 7)"
      by (simp add: hl highlight_columns case_prod_beta)
    ultimately show ?thesis by blast
  qed
  from r fw len wk show ?thesis by blast
qed

theorem highlight_week_index_witness:
  "(1::int) \<le> 5 \<and> (5::int) \<le> 12 \<and> ''Sun'' \<in> set day_abbrs \<and>
   list_index (day_names 6)
     (day_abbrs ! nat (date_weekday \<lparr>year = 2014, month = 5, day = 1\<rparr>)) = Inr 4 \<and>
   (\<exists>r. make_calendar 2014 5 ''Sun''
          [(\<lparr>year = 2014, month = 5, day = 26\<rparr>, ''Memorial Day (US-OPM)'')] = Inr r \<and>
        holidays_weeks (highlights r) ! 0 = str_int ((4 + 26) div 7) \<and>
        holidays_weeks (highlights r) ! 0 = ''4'')"
proof -
  let ?D = "\<lparr>year = 2014, month = 5, day = 26\<rparr>"
  let ?us = "[(?D, ''Memorial Day (US-OPM)'')]"
  have h: "(1::int) \<le> 5" "(5::int) \<le> 12" "''Sun'' \<in> set day_abbrs"
    by (simp_all add: day_abbrs_def)
  have ix: "list_index day_abbrs ''Sun'' = Inr 6" by code_simp
  have hol: "holidays 2014 5 ?us = [(?D, ''Memorial Day'')]" by code_simp
  have pos: "list_index (day_names 6)
     (day_abbrs ! nat (date_weekday \<lparr>year = 2014, month = 5, day = 1\<rparr>)) = Inr 4"
    by code_simp
  have s4: "str_int ((4 + 26) div 7) = ''4''" by code_simp
  from highlight_week_index [OF h, of 2014 ?us] obtain r fw
    where r: "make_calendar 2014 5 ''Sun'' ?us = Inr r"
      and fw: "list_index day_abbrs ''Sun'' = Inr fw"
      and wk: "\<forall>k < length (holidays 2014 5 ?us).
              \<exists>p. list_index (day_names fw)
                     (day_abbrs ! nat (date_weekday
                        (replace_day (fst (holidays 2014 5 ?us ! k)) 1))) = Inr p \<and>
                  holidays_weeks (highlights r) ! k =
                    str_int ((p + day (fst (holidays 2014 5 ?us ! k))) div 7)"
    by (elim exE conjE)
  from fw ix have fw6: "fw = 6" by simp
  from wk [rule_format, of 0] obtain p
    where p: "list_index (day_names 6)
                (day_abbrs ! nat (date_weekday (replace_day ?D 1))) = Inr p"
      and w: "holidays_weeks (highlights r) ! 0 = str_int ((p + 26) div 7)"
    by (auto simp add: hol fw6)
  from p pos have "p = 4" by (simp add: replace_day_def)
  with w s4 h pos r show ?thesis by simp
qed

text \<open>
  C6. A day cell has the weekend background exactly when its weekday label is one of the
  last two names of the weekday ordering \<open>day_abbrs\<close> (Saturday and Sunday). The colours
  are rotated by the same \<^verbatim>\<open>pick_weekdays\<close> as the names, so the cell in column \<open>j\<close> is a
  weekend cell exactly when \<open>(fw + j) mod 7\<close> is 5 or 6, whatever the first weekday is;
  every other cell has the workday background.
\<close>

theorem weekend_background:
  assumes "1 \<le> m" and "m \<le> 12" and "firstweekday \<in> set day_abbrs"
  shows "\<exists>r fw. make_calendar y m firstweekday us_holidays = Inr r \<and>
           list_index day_abbrs firstweekday = Inr fw \<and>
           length (day_backgrounds (source r)) = length (days (source r)) \<and>
           (\<forall>i < length (day_backgrounds (source r)).
              (day_backgrounds (source r) ! i = weekend \<longleftrightarrow>
                 days (source r) ! i \<in> set (drop 5 day_abbrs)) \<and>
              (day_backgrounds (source r) ! i = weekend \<longleftrightarrow>
                 5 \<le> (fw + int (i mod 7)) mod 7) \<and>
              (day_backgrounds (source r) ! i \<noteq> weekend \<longleftrightarrow>
                 day_backgrounds (source r) ! i = workday))"
proof -
  from make_calendar_config [OF assms, of y us_holidays] obtain fw r
    where fw: "list_index day_abbrs firstweekday = Inr fw"
      and r: "make_calendar y m firstweekday us_holidays = Inr r"
      and src: "source r = make_source fw
           (replicate (nat (days_before fw y m)) None @
            map (\<lambda>d. Some (str_int d)) [1..days_in_month y m] @
            replicate (nat (days_after fw y m)) None)"
    by blast
  let ?mds = "replicate (nat (days_before fw y m)) None @
            map (\<lambda>d. Some (str_int d)) [1..days_in_month y m] @
            replicate (nat (days_after fw y m)) None"
  have len: "length (day_backgrounds (source r)) = length (days (source r))"
    by (simp only: src source_lengths)
  have cell: "(day_backgrounds (source r) ! i = weekend \<longleftrightarrow>
                 days (source r) ! i \<in> set (drop 5 day_abbrs)) \<and>
              (day_backgrounds (source r) ! i = weekend \<longleftrightarrow>
                 5 \<le> (fw + int (i mod 7)) mod 7) \<and>
              (day_backgrounds (source r) ! i \<noteq> weekend \<longleftrightarrow>
                 day_backgrounds (source r) ! i = workday)"
    if "i < length (day_backgrounds (source r))" for i
  proof -
    let ?k = "nat ((fw + int (i mod 7)) mod 7)"
    from that have i: "i < 7 * (length ?mds div 7)"
      by (simp only: src source_lengths)
    have j: "i mod 7 < 7" by simp
    have k: "?k < 7" by simp
    have bg: "day_backgrounds (source r) ! i = (replicate 5 workday @ replicate 2 weekend) ! ?k"
      by (simp only: src source_nth(3) [OF i] nth_week_days [OF j])
    have nm: "days (source r) ! i = day_abbrs ! ?k"
      by (simp only: src source_nth(1) [OF i] nth_day_names [OF j])
    have k5: "5 \<le> ?k \<longleftrightarrow> 5 \<le> (fw + int (i mod 7)) mod 7" by arith
    have k4: "?k < 5 \<longleftrightarrow> \<not> 5 \<le> ?k" by arith
    show ?thesis
      unfolding bg nm colour_weekend [OF k] name_weekend [OF k] k5 [symmetric] k4
      by simp
  qed
  from r fw len cell show ?thesis by blast
qed

theorem weekend_background_witness:
  "(1::int) \<le> 3 \<and> (3::int) \<le> 12 \<and> ''Sun'' \<in> set day_abbrs \<and>
   (\<exists>r. make_calendar 2014 3 ''Sun'' [] = Inr r \<and>
        length (day_backgrounds (source r)) = 42 \<and>
        days (source r) ! 0 = ''Sun'' \<and> day_backgrounds (source r) ! 0 = weekend \<and>
        days (source r) ! 5 = ''Fri'' \<and> day_backgrounds (source r) ! 5 = workday)"
proof -
  have h: "(1::int) \<le> 3" "(3::int) \<le> 12" "''Sun'' \<in> set day_abbrs"
    by (simp_all add: day_abbrs_def)
  have ev: "\<not> isl (make_calendar 2014 3 ''Sun'' [])"
    "length (day_backgrounds (source (projr (make_calendar 2014 3 ''Sun'' [])))) = 42"
    "days (source (projr (make_calendar 2014 3 ''Sun'' []))) ! 0 = ''Sun''"
    "days (source (projr (make_calendar 2014 3 ''Sun'' []))) ! 5 = ''Fri''"
    by code_simp+
  have mem: "''Sun'' \<in> set (drop 5 day_abbrs)" "''Fri'' \<notin> set (drop 5 day_abbrs)"
    by (simp_all add: day_abbrs_def)
  from weekend_background [OF h, of 2014 "[]"] obtain r fw
    where r: "make_calendar 2014 3 ''Sun'' [] = Inr r"
      and cell: "\<forall>i < length (day_backgrounds (source r)).
              (day_backgrounds (source r) ! i = weekend \<longleftrightarrow>
                 days (source r) ! i \<in> set (drop 5 day_abbrs)) \<and>
              (day_backgrounds (source r) ! i = weekend \<longleftrightarrow>
                 5 \<le> (fw + int (i mod 7)) mod 7) \<and>
              (day_backgrounds (source r) ! i \<noteq> weekend \<longleftrightarrow>
                 day_backgrounds (source r) ! i = workday)"
    by (elim exE conjE)
  from ev r have e: "length (day_backgrounds (source r)) = 42"
    "days (source r) ! 0 = ''Sun''" "days (source r) ! 5 = ''Fri''" by simp_all
  from cell [rule_format, of 0] e mem have "day_backgrounds (source r) ! 0 = weekend" by simp
  moreover from cell [rule_format, of 5] e mem have "day_backgrounds (source r) ! 5 = workday"
    by auto
  ultimately show ?thesis using h r e by simp
qed

text \<open>
  C7. The comprehension that builds \<^verbatim>\<open>holidays\<close> has a third condition besides year and
  month: the summary must contain \<^verbatim>\<open>(US-OPM)\<close>. A date of the target month whose summary
  lacks that marker is dropped, so the dates retained are not exactly those of the month.
\<close>

theorem holidays_month_filter_counterexample:
  "year \<lparr>year = 2014, month = 2, day = 2\<rparr> = 2014 \<and>
   month \<lparr>year = 2014, month = 2, day = 2\<rparr> = 2 \<and>
   holidays 2014 2 [(\<lparr>year = 2014, month = 2, day = 2\<rparr>, ''Groundhog Day'')] = [] \<and>
   \<not> isl (make_calendar 2014 2 ''Mon''
            [(\<lparr>year = 2014, month = 2, day = 2\<rparr>, ''Groundhog Day'')]) \<and>
   holidays_days (highlights (projr (make_calendar 2014 2 ''Mon''
      [(\<lparr>year = 2014, month = 2, day = 2\<rparr>, ''Groundhog Day'')]))) = []"
  by code_simp

text \<open>
  C7, as the code has it. The retained dates are exactly the input dates whose year and
  month equal the arguments and whose summary contains \<^verbatim>\<open>(US-OPM)\<close>, in input order. Every
  other input entry is dropped without an error: for a month in 1 to 12 and a known first
  weekday the build returns whatever the input list is, and each of the three highlight
  columns it returns is the retained entries, in input order, mapped entry by entry to
  the weekday label, the week index and the label.
\<close>

theorem holidays_stable_filter:
  "map fst (holidays y m us_holidays) =
     map fst (filter (\<lambda>(d, summary).
        year d = y \<and> month d = m \<and> str_contains summary ''(US-OPM)'') us_holidays) \<and>
   (1 \<le> m \<and> m \<le> 12 \<and> firstweekday \<in> set day_abbrs \<longrightarrow>
      (\<exists>r fw. make_calendar y m firstweekday us_holidays = Inr r \<and>
           list_index day_abbrs firstweekday = Inr fw \<and>
           holidays_days (highlights r) =
             map (\<lambda>(d, summary). day_names fw ! nat (weekday fw d))
               (filter (\<lambda>(d, summary).
                  year d = y \<and> month d = m \<and> str_contains summary ''(US-OPM)'') us_holidays) \<and>
           holidays_weeks (highlights r) =
             map (\<lambda>(d, summary). str_int ((weekday fw (replace_day d 1) + day d) div 7))
               (filter (\<lambda>(d, summary).
                  year d = y \<and> month d = m \<and> str_contains summary ''(US-OPM)'') us_holidays) \<and>
           month_holidays (highlights r) =
             map (\<lambda>(d, summary). str_strip (str_replace summary ''(US-OPM)'' ''''))
               (filter (\<lambda>(d, summary).
                  year d = y \<and> month d = m \<and> str_contains summary ''(US-OPM)'') us_holidays) \<and>
           length (holidays_days (highlights r)) = length (holidays y m us_holidays) \<and>
           length (holidays_weeks (highlights r)) = length (holidays y m us_holidays) \<and>
           length (month_holidays (highlights r)) = length (holidays y m us_holidays)))"
proof (intro conjI impI)
  show "map fst (holidays y m us_holidays) =
     map fst (filter (\<lambda>(d, summary).
        year d = y \<and> month d = m \<and> str_contains summary ''(US-OPM)'') us_holidays)"
    by (rule holidays_dates)
next
  assume a: "1 \<le> m \<and> m \<le> 12 \<and> firstweekday \<in> set day_abbrs"
  then have h: "1 \<le> m" "m \<le> 12" "firstweekday \<in> set day_abbrs" by simp_all
  let ?keep = "filter (\<lambda>(d, summary).
      year d = y \<and> month d = m \<and> str_contains summary ''(US-OPM)'') us_holidays"
  from make_calendar_config [OF h, of y us_holidays] obtain fw r
    where fw: "list_index day_abbrs firstweekday = Inr fw"
      and r: "make_calendar y m firstweekday us_holidays = Inr r"
      and hl: "highlights r = make_holidays_source fw (holidays y m us_holidays)"
    by blast
  have c1: "holidays_days (highlights r) =
      map (\<lambda>(d, summary). day_names fw ! nat (weekday fw d)) ?keep"
    by (simp add: hl highlight_columns holidays_filter case_prod_beta)
  have c2: "holidays_weeks (highlights r) =
      map (\<lambda>(d, summary). str_int ((weekday fw (replace_day d 1) + day d) div 7)) ?keep"
    by (simp add: hl highlight_columns holidays_filter case_prod_beta)
  have c3: "month_holidays (highlights r) =
      map (\<lambda>(d, summary). str_strip (str_replace summary ''(US-OPM)'' '''')) ?keep"
    by (simp add: hl highlight_columns holidays_filter case_prod_beta)
  have len: "length (holidays_days (highlights r)) = length (holidays y m us_holidays)"
    "length (holidays_weeks (highlights r)) = length (holidays y m us_holidays)"
    "length (month_holidays (highlights r)) = length (holidays y m us_holidays)"
    by (simp_all add: hl highlight_columns)
  show "\<exists>r fw. make_calendar y m firstweekday us_holidays = Inr r \<and>
           list_index day_abbrs firstweekday = Inr fw \<and>
           holidays_days (highlights r) =
             map (\<lambda>(d, summary). day_names fw ! nat (weekday fw d)) ?keep \<and>
           holidays_weeks (highlights r) =
             map (\<lambda>(d, summary). str_int ((weekday fw (replace_day d 1) + day d) div 7)) ?keep \<and>
           month_holidays (highlights r) =
             map (\<lambda>(d, summary). str_strip (str_replace summary ''(US-OPM)'' '''')) ?keep \<and>
           length (holidays_days (highlights r)) = length (holidays y m us_holidays) \<and>
           length (holidays_weeks (highlights r)) = length (holidays y m us_holidays) \<and>
           length (month_holidays (highlights r)) = length (holidays y m us_holidays)"
    by (intro exI [of _ r] exI [of _ fw] conjI r fw c1 c2 c3 len)
qed

theorem holidays_stable_filter_witness:
  "(1::int) \<le> 5 \<and> (5::int) \<le> 12 \<and> ''Sun'' \<in> set day_abbrs \<and>
   map fst (holidays 2014 5
     [(\<lparr>year = 2014, month = 12, day = 25\<rparr>, ''Christmas Day (US-OPM)''),
      (\<lparr>year = 2014, month = 5, day = 26\<rparr>, ''Memorial Day (US-OPM)''),
      (\<lparr>year = 2014, month = 5, day = 11\<rparr>, ''Mothers Day''),
      (\<lparr>year = 2014, month = 5, day = 6\<rparr>, ''Spring Day (US-OPM)'')]) =
     [\<lparr>year = 2014, month = 5, day = 26\<rparr>, \<lparr>year = 2014, month = 5, day = 6\<rparr>] \<and>
   (\<exists>r. make_calendar 2014 5 ''Sun''
     [(\<lparr>year = 2014, month = 12, day = 25\<rparr>, ''Christmas Day (US-OPM)''),
      (\<lparr>year = 2014, month = 5, day = 26\<rparr>, ''Memorial Day (US-OPM)''),
      (\<lparr>year = 2014, month = 5, day = 11\<rparr>, ''Mothers Day''),
      (\<lparr>year = 2014, month = 5, day = 6\<rparr>, ''Spring Day (US-OPM)'')] = Inr r \<and>
      holidays_days (highlights r) = [''Mon'', ''Tue''] \<and>
      holidays_weeks (highlights r) = [''4'', ''1''] \<and>
      month_holidays (highlights r) = [''Memorial Day'', ''Spring Day''])"
proof -
  let ?us = "[(\<lparr>year = 2014, month = 12, day = 25\<rparr>, ''Christmas Day (US-OPM)''),
      (\<lparr>year = 2014, month = 5, day = 26\<rparr>, ''Memorial Day (US-OPM)''),
      (\<lparr>year = 2014, month = 5, day = 11\<rparr>, ''Mothers Day''),
      (\<lparr>year = 2014, month = 5, day = 6\<rparr>, ''Spring Day (US-OPM)'')]"
  have h: "(1::int) \<le> 5 \<and> (5::int) \<le> 12 \<and> ''Sun'' \<in> set day_abbrs"
    by (simp add: day_abbrs_def)
  have ix: "list_index day_abbrs ''Sun'' = Inr 6" by code_simp
  have f: "map fst (filter (\<lambda>(d, summary).
        year d = 2014 \<and> month d = 5 \<and> str_contains summary ''(US-OPM)'') ?us) =
        [\<lparr>year = 2014, month = 5, day = 26\<rparr>, \<lparr>year = 2014, month = 5, day = 6\<rparr>]"
    by code_simp
  have e1: "map (\<lambda>(d, summary). day_names 6 ! nat (weekday 6 d))
              (filter (\<lambda>(d, summary).
                 year d = 2014 \<and> month d = 5 \<and> str_contains summary ''(US-OPM)'') ?us) =
            [''Mon'', ''Tue'']"
    by code_simp
  have e2: "map (\<lambda>(d, summary). str_int ((weekday 6 (replace_day d 1) + day d) div 7))
              (filter (\<lambda>(d, summary).
                 year d = 2014 \<and> month d = 5 \<and> str_contains summary ''(US-OPM)'') ?us) =
            [''4'', ''1'']"
    by code_simp
  have e3: "map (\<lambda>(d, summary). str_strip (str_replace summary ''(US-OPM)'' ''''))
              (filter (\<lambda>(d, summary).
                 year d = 2014 \<and> month d = 5 \<and> str_contains summary ''(US-OPM)'') ?us) =
            [''Memorial Day'', ''Spring Day'']"
    by code_simp
  note t = holidays_stable_filter [of 2014 5 ?us "''Sun''"]
  from t f have d: "map fst (holidays 2014 5 ?us) =
      [\<lparr>year = 2014, month = 5, day = 26\<rparr>, \<lparr>year = 2014, month = 5, day = 6\<rparr>]"
    by simp
  from t [THEN conjunct2, rule_format, OF h] obtain r fw
    where r: "make_calendar 2014 5 ''Sun'' ?us = Inr r"
      and fw: "list_index day_abbrs ''Sun'' = Inr fw"
      and c1: "holidays_days (highlights r) =
             map (\<lambda>(d, summary). day_names fw ! nat (weekday fw d))
               (filter (\<lambda>(d, summary).
                  year d = 2014 \<and> month d = 5 \<and> str_contains summary ''(US-OPM)'') ?us)"
      and c2: "holidays_weeks (highlights r) =
             map (\<lambda>(d, summary). str_int ((weekday fw (replace_day d 1) + day d) div 7))
               (filter (\<lambda>(d, summary).
                  year d = 2014 \<and> month d = 5 \<and> str_contains summary ''(US-OPM)'') ?us)"
      and c3: "month_holidays (highlights r) =
             map (\<lambda>(d, summary). str_strip (str_replace summary ''(US-OPM)'' ''''))
               (filter (\<lambda>(d, summary).
                  year d = 2014 \<and> month d = 5 \<and> str_contains summary ''(US-OPM)'') ?us)"
    by (elim exE conjE)
  from fw ix have fw6: "fw = 6" by simp
  from c1 e1 have k1: "holidays_days (highlights r) = [''Mon'', ''Tue'']"
    by (simp only: fw6)
  from c2 e2 have k2: "holidays_weeks (highlights r) = [''4'', ''1'']"
    by (simp only: fw6)
  from c3 e3 have k3: "month_holidays (highlights r) = [''Memorial Day'', ''Spring Day'']"
    by simp
  from h d r k1 k2 k3 show ?thesis by (intro conjI exI [of _ r]) simp_all
qed

text \<open>
  C10. Every highlight comes from an input entry whose summary contains \<^verbatim>\<open>(US-OPM)\<close>, and
  its label is that summary after \<^verbatim>\<open>replace("(US-OPM)", "")\<close> and \<^verbatim>\<open>strip()\<close>: the column
  \<^verbatim>\<open>month_holidays\<close> is the list of these labels over the retained entries, and the other
  two highlight columns have the same length.
\<close>

theorem highlight_labels:
  assumes "1 \<le> m" and "m \<le> 12" and "firstweekday \<in> set day_abbrs"
  shows "\<exists>r. make_calendar y m firstweekday us_holidays = Inr r \<and>
           month_holidays (highlights r) =
             map (\<lambda>(d, summary). str_strip (str_replace summary ''(US-OPM)'' ''''))
               (filter (\<lambda>(d, summary).
                  year d = y \<and> month d = m \<and> str_contains summary ''(US-OPM)'') us_holidays) \<and>
           length (holidays_days (highlights r)) = length (month_holidays (highlights r)) \<and>
           length (holidays_weeks (highlights r)) = length (month_holidays (highlights r)) \<and>
           (\<forall>k < length (month_holidays (highlights r)).
              \<exists>d summary pre post.
                (d, summary) \<in> set us_holidays \<and> summary = pre @ ''(US-OPM)'' @ post \<and>
                month_holidays (highlights r) ! k =
                  str_strip (str_replace summary ''(US-OPM)'' ''''))"
proof -
  from make_calendar_config [OF assms, of y us_holidays] obtain fw r
    where r: "make_calendar y m firstweekday us_holidays = Inr r"
      and hl: "highlights r = make_holidays_source fw (holidays y m us_holidays)"
    by blast
  let ?keep = "filter (\<lambda>(d, summary).
      year d = y \<and> month d = m \<and> str_contains summary ''(US-OPM)'') us_holidays"
  let ?label = "\<lambda>summary. str_strip (str_replace summary ''(US-OPM)'' '''')"
  have lab: "month_holidays (highlights r) = map (\<lambda>(d, summary). ?label summary) ?keep"
    by (simp add: hl highlight_columns holidays_filter case_prod_beta)
  have len: "length (holidays_days (highlights r)) = length (month_holidays (highlights r))"
    "length (holidays_weeks (highlights r)) = length (month_holidays (highlights r))"
    by (simp_all add: hl highlight_columns)
  have src: "\<exists>d summary pre post.
                (d, summary) \<in> set us_holidays \<and> summary = pre @ ''(US-OPM)'' @ post \<and>
                month_holidays (highlights r) ! k = ?label summary"
    if "k < length (month_holidays (highlights r))" for k
  proof -
    from that have k: "k < length ?keep" by (simp add: lab)
    obtain d summary where x: "?keep ! k = (d, summary)" by (cases "?keep ! k")
    from k have "?keep ! k \<in> set ?keep" by (rule nth_mem)
    with x have mem: "(d, summary) \<in> set us_holidays"
      and c: "str_contains summary ''(US-OPM)''" by simp_all
    from c obtain pre post where "summary = pre @ ''(US-OPM)'' @ post"
      unfolding str_contains_iff by (elim exE)
    moreover from k x have "month_holidays (highlights r) ! k = ?label summary"
      by (simp add: lab)
    ultimately show ?thesis using mem by blast
  qed
  from r lab len src show ?thesis by blast
qed

theorem highlight_labels_witness:
  "(1::int) \<le> 5 \<and> (5::int) \<le> 12 \<and> ''Sun'' \<in> set day_abbrs \<and>
   (\<exists>r. make_calendar 2014 5 ''Sun''
     [(\<lparr>year = 2014, month = 5, day = 11\<rparr>, ''Mothers Day''),
      (\<lparr>year = 2014, month = 5, day = 26\<rparr>, ''Memorial Day (US-OPM)'')] = Inr r \<and>
      month_holidays (highlights r) = [''Memorial Day''] \<and>
      (\<exists>d summary pre post.
         (d, summary) \<in> set [(\<lparr>year = 2014, month = 5, day = 11\<rparr>, ''Mothers Day''),
            (\<lparr>year = 2014, month = 5, day = 26\<rparr>, ''Memorial Day (US-OPM)'')] \<and>
         summary = pre @ ''(US-OPM)'' @ post \<and>
         month_holidays (highlights r) ! 0 = str_strip (str_replace summary ''(US-OPM)'' '''')))"
proof -
  let ?us = "[(\<lparr>year = 2014, month = 5, day = 11\<rparr>, ''Mothers Day''),
      (\<lparr>year = 2014, month = 5, day = 26\<rparr>, ''Memorial Day (US-OPM)'')]"
  have h: "(1::int) \<le> 5" "(5::int) \<le> 12" "''Sun'' \<in> set day_abbrs"
    by (simp_all add: day_abbrs_def)
  have f: "map (\<lambda>(d, summary). str_strip (str_replace summary ''(US-OPM)'' ''''))
             (filter (\<lambda>(d, summary).
                year d = 2014 \<and> month d = 5 \<and> str_contains summary ''(US-OPM)'') ?us) =
           [''Memorial Day'']"
    by code_simp
  from highlight_labels [OF h, of 2014 ?us] obtain r
    where r: "make_calendar 2014 5 ''Sun'' ?us = Inr r"
      and lab: "month_holidays (highlights r) =
             map (\<lambda>(d, summary). str_strip (str_replace summary ''(US-OPM)'' ''''))
               (filter (\<lambda>(d, summary).
                  year d = 2014 \<and> month d = 5 \<and> str_contains summary ''(US-OPM)'') ?us)"
      and src: "\<forall>k < length (month_holidays (highlights r)).
              \<exists>d summary pre post.
                (d, summary) \<in> set ?us \<and> summary = pre @ ''(US-OPM)'' @ post \<and>
                month_holidays (highlights r) ! k =
                  str_strip (str_replace summary ''(US-OPM)'' '''')"
    by (elim exE conjE)
  from lab f have l: "month_holidays (highlights r) = [''Memorial Day'']" by simp
  then have pos: "0 < length (month_holidays (highlights r))" by simp
  have "\<exists>d summary pre post.
                (d, summary) \<in> set ?us \<and> summary = pre @ ''(US-OPM)'' @ post \<and>
                month_holidays (highlights r) ! 0 =
                  str_strip (str_replace summary ''(US-OPM)'' '''')"
    by (rule src [rule_format, OF pos])
  with h r l show ?thesis by (intro conjI exI [of _ r])
qed

end
